(* ===== verification/Prelude.thy ===== *)
theory Prelude
  imports Main
begin

text \<open>
  Shared vocabulary of the development: the names of the model's types, the Python
  exceptions the program can raise, Python truthiness, and the dictionary operations
  \<open>d[k]\<close>, \<open>d.get(k)\<close> and \<open>del d[k]\<close> on a dictionary modelled as a map
  \<open>'k \<rightharpoonup> 'v\<close>. The collection \<open>model_defs\<close> gathers the definitions that
  the component proofs unfold; \<open>store_simps\<close> gathers the map facts they share.
\<close>

named_theorems model_defs "definitions of the model unfolded by the component proofs"
named_theorems store_simps "facts about the per-sender store shared by the components"

type_synonym phone = string
type_synonym env = "string \<rightharpoonup> string"
type_synonym form = "(string \<times> string) list"

subsection \<open>Python exceptions raised by the program\<close>

text \<open>
  \<open>KeyError k\<close>: a missing key of a plain dictionary (\<open>del d[k]\<close>).
  \<open>BadRequestKeyError k\<close>: a missing field of Flask's \<open>request.form\<close>, a subclass of
  both \<open>KeyError\<close> and \<open>BadRequest\<close> that Flask answers with status 400.
  \<open>SystemExit n\<close>: the exception \<open>exit(n)\<close> raises; \<open>exit()\<close> is \<open>exit(0)\<close>.
\<close>

datatype py_exc = KeyError string | BadRequestKeyError string | SystemExit nat

subsection \<open>Truthiness\<close>

text \<open>
  \<open>os.environ.get\<close> yields \<open>None\<close> or a string; \<open>all\<close> tests the truth value of
  each item, and both \<open>None\<close> and the empty string are false.
\<close>

fun py_truthy :: "string option \<Rightarrow> bool" where
  "py_truthy None = False"
| "py_truthy (Some s) = (s \<noteq> [])"

definition py_all :: "string option list \<Rightarrow> bool" where
  "py_all xs = list_all py_truthy xs"

lemma py_all_simps [simp]:
  "py_all [] = True"
  "py_all (x # xs) = (py_truthy x \<and> py_all xs)"
  by (simp_all add: py_all_def)

lemma py_truthy_iff: "py_truthy x \<longleftrightarrow> (\<exists>s. x = Some s \<and> s \<noteq> [])"
  by (cases x) auto

subsection \<open>Dictionaries\<close>

text \<open>
  Flask's \<open>request.form\<close> is Werkzeug's \<open>ImmutableMultiDict\<close>: the fields in the
  order of the request body, a field possibly repeated. \<open>form[k]\<close> returns the first
  value of \<open>k\<close> (\<open>map_of\<close> of the list of pairs), or raises
  \<open>BadRequestKeyError\<close> when \<open>k\<close> is absent.
\<close>

definition form_getitem :: "form \<Rightarrow> string \<Rightarrow> py_exc + string" where
  "form_getitem f k = (case map_of f k of None \<Rightarrow> Inl (BadRequestKeyError k) | Some v \<Rightarrow> Inr v)"

text \<open>\<open>del d[k]\<close>: removes the key, or raises \<open>KeyError\<close> when it is absent.\<close>

definition py_del :: "(string \<rightharpoonup> 'v) \<Rightarrow> string \<Rightarrow> py_exc + (string \<rightharpoonup> 'v)" where
  "py_del d k = (if k \<in> dom d then Inr (d(k := None)) else Inl (KeyError k))"

declare form_getitem_def [model_defs] py_del_def [model_defs]

lemma form_getitem_Inr [simp]: "map_of f k = Some v \<Longrightarrow> form_getitem f k = Inr v"
  by (simp add: form_getitem_def)

lemma form_getitem_Inl [simp]: "map_of f k = None \<Longrightarrow> form_getitem f k = Inl (BadRequestKeyError k)"
  by (simp add: form_getitem_def)

lemma py_del_present [simp]: "d k = Some v \<Longrightarrow> py_del d k = Inr (d(k := None))"
  by (auto simp: py_del_def)

lemma py_del_absent [simp]: "d k = None \<Longrightarrow> py_del d k = Inl (KeyError k)"
  by (auto simp: py_del_def)

subsection \<open>Map facts shared by the store proofs\<close>

lemma ran_update_sub [store_simps]: "ran (m(k \<mapsto> v)) \<subseteq> insert v (ran m)"
  by (auto simp: ran_def)

lemma ran_delete_sub [store_simps]: "ran (m(k := None)) \<subseteq> ran m"
  by (auto simp: ran_def)

end
