(* ===== verification/Config.thy ===== *)
theory Config
  imports Prelude
begin

text \<open>
  Start-up configuration (src/main.py lines 9 to 23). \<open>load_dotenv()\<close> adds the
  variables of the \<open>.env\<close> file to the process environment without overriding a
  variable that is already set; the three Twilio settings are then read with
  \<open>os.environ.get\<close>, and unless all three are truthy (present and non-empty) the
  program prints a notice and calls \<open>exit()\<close>, which raises \<open>SystemExit\<close> with
  status 0. Otherwise the settings form the \<open>config\<close> every later component reads
  (the origin number of every SMS). The construction of the Twilio client from the SID
  and token (line 23) performs no check; \<open>make_client\<close> builds it from the record.
\<close>

record config =
  account_sid :: string
  auth_token :: string
  twilio_phone_number :: string

text \<open>The Twilio client (line 23): built from the account SID and the auth token,
  the credentials every request it makes carries.\<close>

record twilio_client =
  client_account_sid :: string
  client_auth_token :: string

definition make_client :: "config \<Rightarrow> twilio_client" where
  "make_client cfg = \<lparr>client_account_sid = account_sid cfg, client_auth_token = auth_token cfg\<rparr>"

definition load_dotenv :: "env \<Rightarrow> env \<Rightarrow> env" where
  "load_dotenv dotenv_file os_environ = dotenv_file ++ os_environ"

definition config_missing_msg :: string where
  "config_missing_msg = ''Please set the TWILIO_ACCOUNT_SID, TWILIO_AUTH_TOKEN, and TWILIO_PHONE_NUMBER environment variables.''"

text \<open>The result pairs the lines printed with the configuration or the exception.\<close>

definition startup :: "env \<Rightarrow> string list \<times> (py_exc + config)" where
  "startup environ =
     (let account_sid = environ ''TWILIO_ACCOUNT_SID'';
          auth_token = environ ''TWILIO_AUTH_TOKEN'';
          twilio_phone_number = environ ''TWILIO_PHONE_NUMBER''
      in if \<not> py_all [account_sid, auth_token, twilio_phone_number]
         then ([config_missing_msg], Inl (SystemExit 0))
         else ([], Inr \<lparr>account_sid = the account_sid, auth_token = the auth_token,
                       twilio_phone_number = the twilio_phone_number\<rparr>))"

declare load_dotenv_def [model_defs] startup_def [model_defs]

text \<open>Whether a variable is usable after \<open>load_dotenv\<close>: the process value wins.\<close>

lemma load_dotenv_lookup:
  "load_dotenv d e k = (case e k of Some v \<Rightarrow> Some v | None \<Rightarrow> d k)"
  by (simp add: load_dotenv_def map_add_def)

text \<open>
  C12. Start-up fails fast: it yields a configuration exactly when the three Twilio
  variables are all set and non-empty, and that configuration holds their values.
\<close>

theorem startup_success_iff:
  "snd (startup e) = Inr c \<longleftrightarrow>
     e ''TWILIO_ACCOUNT_SID'' = Some (account_sid c) \<and> account_sid c \<noteq> [] \<and>
     e ''TWILIO_AUTH_TOKEN'' = Some (auth_token c) \<and> auth_token c \<noteq> [] \<and>
     e ''TWILIO_PHONE_NUMBER'' = Some (twilio_phone_number c) \<and> twilio_phone_number c \<noteq> []"
  by (cases c) (auto simp: startup_def Let_def py_truthy_iff)

theorem startup_success_iff_witness:
  "snd (startup [''TWILIO_ACCOUNT_SID'' \<mapsto> ''AC1'', ''TWILIO_AUTH_TOKEN'' \<mapsto> ''tok'',
     ''TWILIO_PHONE_NUMBER'' \<mapsto> ''+15550000000''])
   = Inr \<lparr>account_sid = ''AC1'', auth_token = ''tok'', twilio_phone_number = ''+15550000000''\<rparr>"
  by (simp add: startup_success_iff)

lemma startup_failure:
  "\<not> py_all [e ''TWILIO_ACCOUNT_SID'', e ''TWILIO_AUTH_TOKEN'', e ''TWILIO_PHONE_NUMBER'']
   \<Longrightarrow> startup e = ([config_missing_msg], Inl (SystemExit 0))"
  by (simp add: startup_def Let_def)

lemma startup_cases:
  "(\<exists>c. startup e = ([], Inr c)) \<or> startup e = ([config_missing_msg], Inl (SystemExit 0))"
  by (simp add: startup_def Let_def)

end
