(* ===== verification/Sms.thy ===== *)
theory Sms
  imports Config
begin

text \<open>
  The delivery capability (\<open>send_sms\<close>, src/main.py lines 28 to 38). The world the
  program acts on outside its own memory is a record \<open>io_world\<close>: the requests made
  to Twilio's \<open>client.messages.create\<close> (the client making it, with its credentials,
  and the destination, origin and body) with the
  provider's answer, and the lines printed on the console. Twilio itself is an oracle:
  its answer to a request, a message SID or an error text, is an input
  (\<open>delivery\<close>) of the model. \<open>send_sms\<close> never raises, since it catches every
  \<open>Exception\<close>; it makes exactly one request and prints exactly one line. It is
  stated over any extension of \<open>io_world\<close>, so the components that carry more state
  (the patient store of the intake flow) call it unchanged and keep their fields.
\<close>

record sms =
  sms_client :: twilio_client
  sms_to :: phone
  sms_from :: phone
  sms_body :: string

datatype delivery = Delivered string | Failed string

record io_world =
  provider_log :: "(sms \<times> delivery) list"
  console :: "string list"

text \<open>The line \<open>send_sms\<close> prints for the provider's answer.\<close>

definition delivery_report :: "delivery \<Rightarrow> string" where
  "delivery_report outcome =
     (case outcome of
        Delivered sid \<Rightarrow> ''SMS sent with SID: '' @ sid
      | Failed e \<Rightarrow> ''Error sending SMS: '' @ e)"

definition send_sms :: "config \<Rightarrow> delivery \<Rightarrow> phone \<Rightarrow> string \<Rightarrow>
    'a io_world_scheme \<Rightarrow> 'a io_world_scheme" where
  "send_sms cfg outcome to_phone_number message w =
     (let m = \<lparr>sms_client = make_client cfg, sms_to = to_phone_number, sms_from = twilio_phone_number cfg, sms_body = message\<rparr>
      in w\<lparr>provider_log := provider_log w @ [(m, outcome)],
           console := console w @ [delivery_report outcome]\<rparr>)"

declare send_sms_def [model_defs]

lemma send_sms_more [simp]: "io_world.more (send_sms cfg d p m w) = io_world.more w"
  by (simp add: send_sms_def Let_def)

lemma send_sms_log [simp]:
  "provider_log (send_sms cfg d p m w) =
     provider_log w @ [(\<lparr>sms_client = make_client cfg, sms_to = p, sms_from = twilio_phone_number cfg, sms_body = m\<rparr>, d)]"
  by (simp add: send_sms_def Let_def)

lemma send_sms_console [simp]:
  "console (send_sms cfg d p m w) = console w @ [delivery_report d]"
  by (simp add: send_sms_def Let_def)

end
