(* ===== verification/PyStr.thy ===== *)
theory PyStr
  imports Prelude
begin

text \<open>
  Python's \<open>str.strip()\<close> with no argument, which the intake handler applies to every
  reply (\<open>patient_reply.strip()\<close>, src/main.py lines 50, 54, 58, 62). A Python string is
  a sequence of code points; the model's \<open>string\<close> is a list of 8-bit \<open>char\<close>s read
  as the code points 0 to 255 (Latin-1), on which \<open>py_isspace\<close> agrees with
  \<open>str.isspace\<close>: the controls 9 to 13 and 28 to 31, the space, NEL (133) and the
  no-break space (160). \<open>py_strip\<close> drops the whitespace at both ends.
\<close>

definition py_isspace :: "char \<Rightarrow> bool" where
  "py_isspace c = (let n = of_char c :: nat in
     (9 \<le> n \<and> n \<le> 13) \<or> (28 \<le> n \<and> n \<le> 32) \<or> n = 133 \<or> n = 160)"

definition py_strip :: "string \<Rightarrow> string" where
  "py_strip s = rev (dropWhile py_isspace (rev (dropWhile py_isspace s)))"

declare py_strip_def [model_defs]

end
