(* ===== verification/Intake.thy ===== *)
theory Intake
  imports Sms PyStr "HOL-Library.Sublist"
begin

text \<open>
  The intake flow (src/main.py lines 25 to 66). The process-wide dictionary
  \<open>patient_state\<close> maps a sender's number to the tag of the step it expects next; the
  program keeps it in memory beside the provider log and the console, so the whole
  state is the record \<open>app_world\<close>, an extension of \<open>io_world\<close>. The tags are the
  four strings of the source; a string that is none of them leads to the apology
  branch. \<open>handle_patient_intake_start\<close> greets and stores the first tag;
  \<open>handle_patient_intake_continue\<close> reads the tag, strips the reply, answers with a
  message that echoes it, and stores the next tag, or deletes the entry after the last
  step (\<open>del\<close>, which raises \<open>KeyError\<close> on a missing key, so the result carries an
  optional exception). The second half states the specification's enumerated stages
  and proves that on stores holding only the four tags the handlers move each sender
  one stage along the linear walk of spec.md section 4.1.
\<close>

record app_world = io_world +
  patient_state :: "phone \<rightharpoonup> string"

definition init_world :: app_world where
  "init_world = \<lparr>provider_log = [], console = [], patient_state = Map.empty\<rparr>"

subsection \<open>Tags and messages\<close>

definition waiting_for_name :: string where
  "waiting_for_name = ''waiting_for_name''"
definition waiting_for_ohip :: string where
  "waiting_for_ohip = ''waiting_for_ohip''"
definition waiting_for_appointment_type :: string where
  "waiting_for_appointment_type = ''waiting_for_appointment_type''"
definition waiting_for_complaint :: string where
  "waiting_for_complaint = ''waiting_for_complaint''"

definition intake_tags :: "string list" where
  "intake_tags = [waiting_for_name, waiting_for_ohip, waiting_for_appointment_type,
                  waiting_for_complaint]"

definition quote :: string where
  "quote = [CHR 0x27]"

definition greeting_msg :: string where
  "greeting_msg = ''Hello! Welcome to our medical practice. My name is LiV, your virtual intake agent. Please reply with your name.''"

definition name_reply :: "string \<Rightarrow> string" where
  "name_reply patient_name = ''Thank you, '' @ patient_name @ ''! Please reply with your OHIP number.''"

definition ohip_reply :: "string \<Rightarrow> string" where
  "ohip_reply ohip_number = ''Thank you for your OHIP number: '' @ ohip_number @
     ''. What type of appointment are you looking for today? (e.g., consultation, follow-up)''"

definition appointment_reply :: "string \<Rightarrow> string" where
  "appointment_reply appointment_type = ''You are requesting a '' @ quote @ appointment_type @ quote @
     '' appointment. Next available appointment time will be confirmed shortly by our staff. Please briefly describe the reason for your visit.''"

definition complaint_reply :: "string \<Rightarrow> string" where
  "complaint_reply medical_complaint = ''Thank you for the summary: '' @ medical_complaint @
     ''. This information will be shared with your care provider. Thank you for completing the initial intake. Our team will be in touch soon with further details.''"

definition sorry_msg :: string where
  "sorry_msg = ''Sorry, I'' @ quote @ ''m not sure how to process that. Please try again or contact our office directly.''"

lemmas tag_defs = waiting_for_name_def waiting_for_ohip_def
  waiting_for_appointment_type_def waiting_for_complaint_def

text \<open>A stored string is one of the four tags or none of them.\<close>

lemma tag_cases:
  obtains "t = waiting_for_name" | "t = waiting_for_ohip" | "t = waiting_for_appointment_type"
    | "t = waiting_for_complaint" | "t \<notin> set intake_tags"
  by (auto simp: intake_tags_def)

subsection \<open>The handlers\<close>

definition handle_patient_intake_start :: "config \<Rightarrow> delivery \<Rightarrow> phone \<Rightarrow> app_world \<Rightarrow> app_world" where
  "handle_patient_intake_start cfg outcome patient_phone_number w =
     (let w1 = send_sms cfg outcome patient_phone_number greeting_msg w
      in w1\<lparr>patient_state := (patient_state w1)(patient_phone_number \<mapsto> waiting_for_name)\<rparr>)"

definition handle_patient_intake_continue :: "config \<Rightarrow> delivery \<Rightarrow> phone \<Rightarrow> string \<Rightarrow>
    app_world \<Rightarrow> py_exc option \<times> app_world" where
  "handle_patient_intake_continue cfg outcome patient_phone_number patient_reply w =
     (let current_state = patient_state w patient_phone_number in
      if current_state = Some waiting_for_name then
        (let patient_name = py_strip patient_reply;
             w1 = send_sms cfg outcome patient_phone_number (name_reply patient_name) w
         in (None, w1\<lparr>patient_state := (patient_state w1)(patient_phone_number \<mapsto> waiting_for_ohip)\<rparr>))
      else if current_state = Some waiting_for_ohip then
        (let ohip_number = py_strip patient_reply;
             w1 = send_sms cfg outcome patient_phone_number (ohip_reply ohip_number) w
         in (None, w1\<lparr>patient_state := (patient_state w1)(patient_phone_number \<mapsto> waiting_for_appointment_type)\<rparr>))
      else if current_state = Some waiting_for_appointment_type then
        (let appointment_type = py_strip patient_reply;
             w1 = send_sms cfg outcome patient_phone_number (appointment_reply appointment_type) w
         in (None, w1\<lparr>patient_state := (patient_state w1)(patient_phone_number \<mapsto> waiting_for_complaint)\<rparr>))
      else if current_state = Some waiting_for_complaint then
        (let medical_complaint = py_strip patient_reply;
             w1 = send_sms cfg outcome patient_phone_number (complaint_reply medical_complaint) w
         in (case py_del (patient_state w1) patient_phone_number of
               Inl e \<Rightarrow> (Some e, w1)
             | Inr ps \<Rightarrow> (None, w1\<lparr>patient_state := ps\<rparr>)))
      else (None, send_sms cfg outcome patient_phone_number sorry_msg w))"

declare handle_patient_intake_start_def [model_defs]
  handle_patient_intake_continue_def [model_defs]

subsection \<open>Basic facts\<close>

lemma patient_state_send_sms [simp, store_simps]:
  "patient_state (send_sms cfg d p m w) = patient_state w"
  by (simp add: send_sms_def Let_def)

lemma tags_distinct [simp]:
  "waiting_for_name \<noteq> waiting_for_ohip" "waiting_for_name \<noteq> waiting_for_appointment_type"
  "waiting_for_name \<noteq> waiting_for_complaint" "waiting_for_ohip \<noteq> waiting_for_name"
  "waiting_for_ohip \<noteq> waiting_for_appointment_type" "waiting_for_ohip \<noteq> waiting_for_complaint"
  "waiting_for_appointment_type \<noteq> waiting_for_name"
  "waiting_for_appointment_type \<noteq> waiting_for_ohip"
  "waiting_for_appointment_type \<noteq> waiting_for_complaint"
  "waiting_for_complaint \<noteq> waiting_for_name" "waiting_for_complaint \<noteq> waiting_for_ohip"
  "waiting_for_complaint \<noteq> waiting_for_appointment_type"
  by (simp_all add: tag_defs)

text \<open>The five branches of \<open>handle_patient_intake_continue\<close>, one lemma each.\<close>

lemma continue_name:
  "patient_state w p = Some waiting_for_name \<Longrightarrow>
   handle_patient_intake_continue cfg d p r w =
     (None, (send_sms cfg d p (name_reply (py_strip r)) w)
              \<lparr>patient_state := (patient_state w)(p \<mapsto> waiting_for_ohip)\<rparr>)"
  by (simp add: handle_patient_intake_continue_def Let_def)

lemma continue_ohip:
  "patient_state w p = Some waiting_for_ohip \<Longrightarrow>
   handle_patient_intake_continue cfg d p r w =
     (None, (send_sms cfg d p (ohip_reply (py_strip r)) w)
              \<lparr>patient_state := (patient_state w)(p \<mapsto> waiting_for_appointment_type)\<rparr>)"
  by (simp add: handle_patient_intake_continue_def Let_def)

lemma continue_appointment:
  "patient_state w p = Some waiting_for_appointment_type \<Longrightarrow>
   handle_patient_intake_continue cfg d p r w =
     (None, (send_sms cfg d p (appointment_reply (py_strip r)) w)
              \<lparr>patient_state := (patient_state w)(p \<mapsto> waiting_for_complaint)\<rparr>)"
  by (simp add: handle_patient_intake_continue_def Let_def)

lemma continue_complaint:
  "patient_state w p = Some waiting_for_complaint \<Longrightarrow>
   handle_patient_intake_continue cfg d p r w =
     (None, (send_sms cfg d p (complaint_reply (py_strip r)) w)
              \<lparr>patient_state := (patient_state w)(p := None)\<rparr>)"
  by (simp add: handle_patient_intake_continue_def Let_def)

lemma continue_other:
  "patient_state w p \<notin> Some ` set intake_tags \<Longrightarrow>
   handle_patient_intake_continue cfg d p r w = (None, send_sms cfg d p sorry_msg w)"
  by (auto simp: handle_patient_intake_continue_def Let_def intake_tags_def)

lemmas continue_branches =
  continue_name continue_ohip continue_appointment continue_complaint continue_other

lemma start_state [simp]:
  "patient_state (handle_patient_intake_start cfg d p w) = (patient_state w)(p \<mapsto> waiting_for_name)"
  by (simp add: handle_patient_intake_start_def Let_def)

lemma start_log [simp]:
  "provider_log (handle_patient_intake_start cfg d p w) =
     provider_log w @ [(\<lparr>sms_client = make_client cfg, sms_to = p, sms_from = twilio_phone_number cfg, sms_body = greeting_msg\<rparr>, d)]"
  by (simp add: handle_patient_intake_start_def Let_def)

text \<open>
  Whatever the store holds, the continue handler returns normally: the \<open>del\<close> of its
  last branch runs only when the tag just read is present.
\<close>

lemma continue_no_exception: "fst (handle_patient_intake_continue cfg d p r w) = None"
proof (cases "patient_state w p \<in> Some ` set intake_tags")
  case True
  then show ?thesis by (auto simp: intake_tags_def continue_branches)
next
  case False
  then show ?thesis by (simp add: continue_other)
qed

subsection \<open>The store invariant\<close>

text \<open>Every value in the store is one of the four tags the handlers write.\<close>

definition valid_store :: "(phone \<rightharpoonup> string) \<Rightarrow> bool" where
  "valid_store ps = (ran ps \<subseteq> set intake_tags)"

lemma valid_store_empty [simp]: "valid_store Map.empty"
  by (simp add: valid_store_def)

lemma valid_store_update [simp]:
  "valid_store ps \<Longrightarrow> v \<in> set intake_tags \<Longrightarrow> valid_store (ps(k \<mapsto> v))"
  using ran_update_sub [of ps k v] by (auto simp: valid_store_def)

lemma valid_store_delete [simp]: "valid_store ps \<Longrightarrow> valid_store (ps(k := None))"
  using ran_delete_sub [of ps k] by (auto simp: valid_store_def)

lemma valid_store_lookup:
  "valid_store ps \<Longrightarrow> ps k = Some v \<Longrightarrow> v \<in> set intake_tags"
  by (auto simp: valid_store_def ran_def)

lemma start_valid: "valid_store (patient_state w) \<Longrightarrow>
  valid_store (patient_state (handle_patient_intake_start cfg d p w))"
  by (simp add: intake_tags_def)

lemma continue_valid: "valid_store (patient_state w) \<Longrightarrow>
  valid_store (patient_state (snd (handle_patient_intake_continue cfg d p r w)))"
  by (cases "patient_state w p \<in> Some ` set intake_tags")
     (auto simp: intake_tags_def continue_branches)

subsection \<open>The specification's stages\<close>

text \<open>
  spec.md section 4.1 describes the store as a map from senders to a closed set of
  stages, absence meaning "not started", and every message as one step of a linear
  walk. \<open>abs_store\<close> reads a store of tags as such a map; \<open>spec_step\<close> is the walk.
\<close>

datatype stage = AwaitingName | AwaitingIdentifier | AwaitingAppointmentType | AwaitingComplaint

primrec stage_tag :: "stage \<Rightarrow> string" where
  "stage_tag AwaitingName = waiting_for_name"
| "stage_tag AwaitingIdentifier = waiting_for_ohip"
| "stage_tag AwaitingAppointmentType = waiting_for_appointment_type"
| "stage_tag AwaitingComplaint = waiting_for_complaint"

definition tag_stage :: "string \<Rightarrow> stage option" where
  "tag_stage t = map_of (map (\<lambda>s. (stage_tag s, s))
     [AwaitingName, AwaitingIdentifier, AwaitingAppointmentType, AwaitingComplaint]) t"

definition abs_store :: "(phone \<rightharpoonup> string) \<Rightarrow> (phone \<rightharpoonup> stage)" where
  "abs_store ps = tag_stage \<circ>\<^sub>m ps"

fun spec_next :: "stage option \<Rightarrow> stage option" where
  "spec_next None = Some AwaitingName"
| "spec_next (Some AwaitingName) = Some AwaitingIdentifier"
| "spec_next (Some AwaitingIdentifier) = Some AwaitingAppointmentType"
| "spec_next (Some AwaitingAppointmentType) = Some AwaitingComplaint"
| "spec_next (Some AwaitingComplaint) = None"

definition spec_step :: "(phone \<rightharpoonup> stage) \<Rightarrow> phone \<Rightarrow> (phone \<rightharpoonup> stage)" where
  "spec_step m p = m(p := spec_next (m p))"

text \<open>The reply the table of section 4.1 asks for, with the program's wording.\<close>

fun spec_reply :: "stage option \<Rightarrow> string \<Rightarrow> string" where
  "spec_reply None body = greeting_msg"
| "spec_reply (Some AwaitingName) body = name_reply (py_strip body)"
| "spec_reply (Some AwaitingIdentifier) body = ohip_reply (py_strip body)"
| "spec_reply (Some AwaitingAppointmentType) body = appointment_reply (py_strip body)"
| "spec_reply (Some AwaitingComplaint) body = complaint_reply (py_strip body)"

lemma tag_stage_tag [simp]: "tag_stage (stage_tag s) = Some s"
  by (cases s) (simp_all add: tag_stage_def)

lemma tag_stage_Some: "tag_stage t = Some s \<Longrightarrow> t = stage_tag s"
  by (auto simp: tag_stage_def split: if_splits)

lemma valid_tag_stage: "t \<in> set intake_tags \<Longrightarrow> \<exists>s. t = stage_tag s"
  by (auto simp: intake_tags_def intro: stage_tag.simps [symmetric])

lemma tag_stage_tags [simp]:
  "tag_stage waiting_for_name = Some AwaitingName"
  "tag_stage waiting_for_ohip = Some AwaitingIdentifier"
  "tag_stage waiting_for_appointment_type = Some AwaitingAppointmentType"
  "tag_stage waiting_for_complaint = Some AwaitingComplaint"
  using tag_stage_tag [of AwaitingName] tag_stage_tag [of AwaitingIdentifier]
    tag_stage_tag [of AwaitingAppointmentType] tag_stage_tag [of AwaitingComplaint]
  by simp_all

lemma abs_store_update [simp]: "abs_store (ps(k \<mapsto> t)) = (abs_store ps)(k := tag_stage t)"
  by (auto simp: abs_store_def map_comp_def)

lemma abs_store_delete [simp]: "abs_store (ps(k := None)) = (abs_store ps)(k := None)"
  by (auto simp: abs_store_def map_comp_def)

lemma abs_store_lookup [simp]: "ps k = Some t \<Longrightarrow> abs_store ps k = tag_stage t"
  by (simp add: abs_store_def)

lemma abs_store_None [simp]: "ps k = None \<Longrightarrow> abs_store ps k = None"
  by (simp add: abs_store_def)


text \<open>
  Refinement of one handler call: on a valid store the handler moves the abstract store
  by \<open>spec_step\<close> and sends exactly the reply \<open>spec_reply\<close> prescribes.
\<close>

lemma start_refines:
  assumes "patient_state w p = None"
  shows "abs_store (patient_state (handle_patient_intake_start cfg d p w)) =
           spec_step (abs_store (patient_state w)) p"
    and "provider_log (handle_patient_intake_start cfg d p w) = provider_log w @
           [(\<lparr>sms_client = make_client cfg, sms_to = p, sms_from = twilio_phone_number cfg,
              sms_body = spec_reply (abs_store (patient_state w) p) r\<rparr>, d)]"
  using assms by (simp_all add: spec_step_def)

lemma continue_refines:
  assumes "valid_store (patient_state w)" "patient_state w p = Some t"
  shows "abs_store (patient_state (snd (handle_patient_intake_continue cfg d p r w))) =
           spec_step (abs_store (patient_state w)) p
       \<and> provider_log (snd (handle_patient_intake_continue cfg d p r w)) = provider_log w @
           [(\<lparr>sms_client = make_client cfg, sms_to = p, sms_from = twilio_phone_number cfg,
              sms_body = spec_reply (abs_store (patient_state w) p) r\<rparr>, d)]"
proof -
  from assms obtain s where t: "t = stage_tag s"
    using valid_store_lookup valid_tag_stage by blast
  with assms(2) show ?thesis
    by (cases s) (simp_all add: continue_branches spec_step_def)
qed


text \<open>The store after a continue call, as a function of the tag read.\<close>

definition continue_tag :: "string option \<Rightarrow> string option" where
  "continue_tag cur =
     (if cur = Some waiting_for_name then Some waiting_for_ohip
      else if cur = Some waiting_for_ohip then Some waiting_for_appointment_type
      else if cur = Some waiting_for_appointment_type then Some waiting_for_complaint
      else if cur = Some waiting_for_complaint then None
      else cur)"

lemma continue_state:
  "patient_state (snd (handle_patient_intake_continue cfg d p r w)) =
     (patient_state w)(p := continue_tag (patient_state w p))"
  by (cases "patient_state w p \<in> Some ` set intake_tags")
     (auto simp: intake_tags_def continue_branches continue_tag_def)

lemma continue_log:
  "\<exists>m. provider_log (snd (handle_patient_intake_continue cfg d p r w)) =
         provider_log w @ [(\<lparr>sms_client = make_client cfg, sms_to = p, sms_from = twilio_phone_number cfg, sms_body = m\<rparr>, d)]"
  by (cases "patient_state w p \<in> Some ` set intake_tags")
     (auto simp: intake_tags_def continue_branches)


subsection \<open>The replies echo what the patient wrote\<close>

lemma reply_parts:
  "name_reply t = ''Thank you, '' @ t @ ''! Please reply with your OHIP number.''"
  "ohip_reply t = ''Thank you for your OHIP number: '' @ t @
     ''. What type of appointment are you looking for today? (e.g., consultation, follow-up)''"
  "appointment_reply t = (''You are requesting a '' @ quote) @ t @ (quote @
     '' appointment. Next available appointment time will be confirmed shortly by our staff. Please briefly describe the reason for your visit.'')"
  "complaint_reply t = ''Thank you for the summary: '' @ t @
     ''. This information will be shared with your care provider. Thank you for completing the initial intake. Our team will be in touch soon with further details.''"
  by (simp_all add: name_reply_def ohip_reply_def appointment_reply_def complaint_reply_def)

lemma echo_reply_inj:
  "name_reply t = name_reply t' \<longleftrightarrow> t = t'"
  "ohip_reply t = ohip_reply t' \<longleftrightarrow> t = t'"
  "appointment_reply t = appointment_reply t' \<longleftrightarrow> t = t'"
  "complaint_reply t = complaint_reply t' \<longleftrightarrow> t = t'"
  by (simp_all only: reply_parts same_append_eq append_same_eq)

text \<open>
  C11. Every reply of the four data steps quotes the stripped text the patient sent,
  and quotes it exactly: two messages at the same step get the same reply if and only
  if their stripped texts agree (so the stripped text can be read back from the reply).
\<close>

theorem reply_echoes_stripped_text:
  assumes "patient_state w p \<in> Some ` set intake_tags"
  shows "sublist (py_strip b) (sms_body (fst (last (provider_log (snd (handle_patient_intake_continue cfg d p b w))))))
       \<and> (sms_body (fst (last (provider_log (snd (handle_patient_intake_continue cfg d p b w))))) =
          sms_body (fst (last (provider_log (snd (handle_patient_intake_continue cfg d' p b' w)))))
          \<longleftrightarrow> py_strip b = py_strip b')"
  using assms
  by (auto simp: intake_tags_def continue_branches echo_reply_inj) (simp_all only: reply_parts sublist_appendI)

theorem reply_echoes_stripped_text_witness:
  "sublist ''Jane Doe'' (sms_body (fst (last (provider_log (snd (handle_patient_intake_continue
      \<lparr>account_sid = ''AC1'', auth_token = ''t'', twilio_phone_number = ''+15550000000''\<rparr>
      (Delivered ''SM1'') ''+15551234567'' '' Jane Doe  ''
      \<lparr>provider_log = [], console = [], patient_state = [''+15551234567'' \<mapsto> waiting_for_name]\<rparr>))))))"
proof -
  have "patient_state \<lparr>provider_log = [], console = [], patient_state = [''+15551234567'' \<mapsto> waiting_for_name]\<rparr>
          ''+15551234567'' \<in> Some ` set intake_tags"
    by (simp add: intake_tags_def)
  from reply_echoes_stripped_text [OF this, of "'' Jane Doe  ''"] show ?thesis
    by (simp add: py_strip_def py_isspace_def)
qed

end
