(* ===== verification/Webhook.thy ===== *)
theory Webhook
  imports Intake
begin

text \<open>
  The webhook (src/main.py lines 68 to 81) and the Flask layer around it. Flask routes
  a request on \<open>/sms\<close> with method POST to \<open>incoming_sms\<close>, answers OPTIONS itself
  (the automatic options of a route) and any other method with 405; the default static
  route registered by \<open>Flask(__name__)\<close> answers GET and HEAD with 404 (there is no
  static folder), OPTIONS with 200 and other methods with 405; any other path is a 404. \<open>incoming_sms\<close> reads the form fields \<open>From\<close> and \<open>Body\<close> (a missing field
  raises \<open>BadRequestKeyError\<close> before anything is changed), starts the flow for a
  number not in the store and continues it otherwise, and returns status 200. An
  exception becomes a status: \<open>BadRequestKeyError\<close> is a 400 unless Flask runs in debug
  mode, where it is trapped and shown as a 500 (Flask's \<open>trap_http_exception\<close> with
  \<open>TRAP_BAD_REQUEST_ERRORS\<close> unset); every other exception is a 500. \<open>serve\<close> runs
  a sequence of requests one after the other, each with the provider's answer to the
  SMS it sends.
\<close>

record request =
  req_method :: string
  req_path :: string
  req_form :: form

definition incoming_sms :: "config \<Rightarrow> delivery \<Rightarrow> form \<Rightarrow> app_world \<Rightarrow> (py_exc + nat) \<times> app_world" where
  "incoming_sms cfg outcome request_form w =
     (case form_getitem request_form ''From'' of
        Inl e \<Rightarrow> (Inl e, w)
      | Inr sender_phone_number \<Rightarrow>
        (case form_getitem request_form ''Body'' of
           Inl e \<Rightarrow> (Inl e, w)
         | Inr message_body \<Rightarrow>
             (if patient_state w sender_phone_number = None
              then (Inr 200, handle_patient_intake_start cfg outcome sender_phone_number w)
              else (case handle_patient_intake_continue cfg outcome sender_phone_number message_body w of
                      (None, w') \<Rightarrow> (Inr 200, w')
                    | (Some e, w') \<Rightarrow> (Inl e, w')))))"

definition flask_error_status :: "bool \<Rightarrow> py_exc \<Rightarrow> nat" where
  "flask_error_status debug e =
     (case e of BadRequestKeyError _ \<Rightarrow> (if debug then 500 else 400) | _ \<Rightarrow> 500)"

text \<open>
  \<open>Flask(__name__)\<close> (line 11) registers, besides the \<open>/sms\<close> route of line 68, the
  route \<open>/static/<path:filename>\<close> for the default static folder: Werkzeug's path
  converter takes a non-empty filename that does not start with a slash. It allows GET
  (with HEAD) and answers OPTIONS itself; since the repository has no static folder,
  every file is missing and a GET or HEAD is answered 404.
\<close>

definition static_route :: "string \<Rightarrow> bool" where
  "static_route path =
     (take 8 path = ''/static/'' \<and> drop 8 path \<noteq> [] \<and> hd (drop 8 path) \<noteq> CHR ''/'')"

definition static_status :: "string \<Rightarrow> nat" where
  "static_status method =
     (if method = ''GET'' \<or> method = ''HEAD'' then 404
      else if method = ''OPTIONS'' then 200 else 405)"

text \<open>
  Werkzeug merges repeated slashes of a request path by redirecting to the merged path;
  the model takes request paths without them (\<open>repeated_slash\<close> names the excluded ones).
\<close>

fun repeated_slash :: "string \<Rightarrow> bool" where
  "repeated_slash (a # b # s) = ((a = CHR ''/'' \<and> b = CHR ''/'') \<or> repeated_slash (b # s))"
| "repeated_slash _ = False"

definition app_dispatch :: "bool \<Rightarrow> config \<Rightarrow> delivery \<Rightarrow> request \<Rightarrow> app_world \<Rightarrow> nat \<times> app_world" where
  "app_dispatch debug cfg outcome r w =
     (if req_path r = ''/sms'' then
        (if req_method r = ''POST'' then
           (case incoming_sms cfg outcome (req_form r) w of
              (Inr status, w') \<Rightarrow> (status, w')
            | (Inl e, w') \<Rightarrow> (flask_error_status debug e, w'))
         else if req_method r = ''OPTIONS'' then (200, w)
         else (405, w))
      else if static_route (req_path r) then (static_status (req_method r), w)
      else (404, w))"

fun serve :: "bool \<Rightarrow> config \<Rightarrow> (request \<times> delivery) list \<Rightarrow> app_world \<Rightarrow> nat list \<times> app_world" where
  "serve debug cfg [] w = ([], w)"
| "serve debug cfg ((r, outcome) # rs) w =
     (let (status, w1) = app_dispatch debug cfg outcome r w;
          (statuses, w2) = serve debug cfg rs w1
      in (status # statuses, w2))"

declare incoming_sms_def [model_defs] app_dispatch_def [model_defs]

text \<open>The request Twilio sends for an inbound message.\<close>

definition sms_post :: "phone \<Rightarrow> string \<Rightarrow> request" where
  "sms_post p b = \<lparr>req_method = ''POST'', req_path = ''/sms'', req_form = [(''From'', p), (''Body'', b)]\<rparr>"

text \<open>A request is a well-formed inbound message from \<open>p\<close> when it is a POST on
  \<open>/sms\<close> whose form carries both fields.\<close>

definition inbound :: "request \<Rightarrow> phone \<Rightarrow> string \<Rightarrow> bool" where
  "inbound r p b = (req_path r = ''/sms'' \<and> req_method r = ''POST'' \<and>
                    map_of (req_form r) ''From'' = Some p \<and> map_of (req_form r) ''Body'' = Some b)"

lemma inbound_sms_post [simp]: "inbound (sms_post p b) p b"
  by (simp add: inbound_def sms_post_def)

subsection \<open>One request\<close>

lemma incoming_new:
  "map_of f ''From'' = Some p \<Longrightarrow> map_of f ''Body'' = Some b \<Longrightarrow> patient_state w p = None \<Longrightarrow>
   incoming_sms cfg d f w = (Inr 200, handle_patient_intake_start cfg d p w)"
  by (simp add: incoming_sms_def)

lemma incoming_known:
  "map_of f ''From'' = Some p \<Longrightarrow> map_of f ''Body'' = Some b \<Longrightarrow> patient_state w p = Some t \<Longrightarrow>
   incoming_sms cfg d f w = (Inr 200, snd (handle_patient_intake_continue cfg d p b w))"
  using continue_no_exception [of cfg d p b w]
  by (cases "handle_patient_intake_continue cfg d p b w") (simp add: incoming_sms_def)

lemma dispatch_inbound:
  "inbound r p b \<Longrightarrow> app_dispatch debug cfg d r w =
     (200, if patient_state w p = None then handle_patient_intake_start cfg d p w
           else snd (handle_patient_intake_continue cfg d p b w))"
  by (cases "patient_state w p") (auto simp: inbound_def app_dispatch_def incoming_new incoming_known)

lemma dispatch_sms_post [simp]:
  "app_dispatch debug cfg d (sms_post p b) w =
     (200, if patient_state w p = None then handle_patient_intake_start cfg d p w
           else snd (handle_patient_intake_continue cfg d p b w))"
  by (rule dispatch_inbound) (rule inbound_sms_post)

lemma dispatch_not_inbound:
  "(\<nexists>p b. inbound r p b) \<Longrightarrow> snd (app_dispatch debug cfg d r w) = w"
  by (auto simp: inbound_def app_dispatch_def incoming_sms_def form_getitem_def
      split: option.splits)

lemma dispatch_cases:
  "(\<exists>p b. inbound r p b) \<or> snd (app_dispatch debug cfg d r w) = w"
  using dispatch_not_inbound by blast


lemma serve_Cons [simp]:
  "serve debug cfg ((r, d) # rs) w =
     (fst (app_dispatch debug cfg d r w) # fst (serve debug cfg rs (snd (app_dispatch debug cfg d r w))),
      snd (serve debug cfg rs (snd (app_dispatch debug cfg d r w))))"
  by (simp add: split_beta)

declare serve.simps(2) [simp del]

subsection \<open>The store invariant over reachable worlds\<close>

lemma dispatch_valid:
  assumes "valid_store (patient_state w)"
  shows "valid_store (patient_state (snd (app_dispatch debug cfg d r w)))"
proof (cases "\<exists>p b. inbound r p b")
  case True
  then obtain p b where "inbound r p b" by blast
  with assms show ?thesis by (simp add: dispatch_inbound continue_valid intake_tags_def)
next
  case False
  with assms show ?thesis by (simp add: dispatch_not_inbound)
qed

text \<open>The worlds the server can be in: the initial one and whatever a request makes of a
  reachable one, with any provider answer.\<close>

inductive reachable :: "bool \<Rightarrow> config \<Rightarrow> app_world \<Rightarrow> bool" for debug cfg where
  init: "reachable debug cfg init_world"
| step: "reachable debug cfg w \<Longrightarrow> reachable debug cfg (snd (app_dispatch debug cfg d r w))"

lemma reachable_valid: "reachable debug cfg w \<Longrightarrow> valid_store (patient_state w)"
  by (induction rule: reachable.induct) (simp_all add: init_world_def dispatch_valid)

lemma serve_reachable: "reachable debug cfg w \<Longrightarrow> reachable debug cfg (snd (serve debug cfg rs w))"
proof (induction rs arbitrary: w)
  case Nil
  then show ?case by simp
next
  case (Cons x rs)
  then show ?case by (cases x) (simp add: Cons.IH reachable.step)
qed

subsection \<open>One request refines one step of the specification\<close>

lemma dispatch_refines_step:
  assumes "valid_store (patient_state w)" "inbound r p b"
  shows "abs_store (patient_state (snd (app_dispatch debug cfg d r w))) =
           spec_step (abs_store (patient_state w)) p
       \<and> provider_log (snd (app_dispatch debug cfg d r w)) = provider_log w @
           [(\<lparr>sms_client = make_client cfg, sms_to = p, sms_from = twilio_phone_number cfg,
              sms_body = spec_reply (abs_store (patient_state w) p) b\<rparr>, d)]"
  using assms
  by (cases "patient_state w p") (simp_all add: dispatch_inbound continue_refines spec_step_def)

lemma spec_reply_not_sorry: "spec_reply s b \<noteq> sorry_msg"
proof -
  have "hd (spec_reply s b) \<noteq> hd sorry_msg"
    by (cases "(s, b)" rule: spec_reply.cases)
       (simp_all add: greeting_msg_def name_reply_def ohip_reply_def appointment_reply_def
         complaint_reply_def sorry_msg_def)
  then show ?thesis by metis
qed

subsection \<open>Senders do not interfere\<close>

definition sender_of :: "request \<Rightarrow> phone option" where
  "sender_of r = (if req_path r = ''/sms'' \<and> req_method r = ''POST'' then map_of (req_form r) ''From'' else None)"

lemma inbound_sender: "inbound r p b \<Longrightarrow> sender_of r = Some p"
  by (simp add: inbound_def sender_of_def)

text \<open>The store after a request depends only on the store, never on the provider's
  answer, and at a number only on the store at that number.\<close>

lemma dispatch_store_at:
  "patient_state (snd (app_dispatch debug cfg d r w)) k =
     (if sender_of r = Some k \<and> (\<exists>b. map_of (req_form r) ''Body'' = Some b)
      then (if patient_state w k = None then Some waiting_for_name
            else continue_tag (patient_state w k))
      else patient_state w k)"
proof (cases "\<exists>p b. inbound r p b")
  case True
  then obtain p b where ib: "inbound r p b" by blast
  then have "sender_of r = Some p" "map_of (req_form r) ''Body'' = Some b"
    by (simp_all add: inbound_sender) (simp add: inbound_def)
  with ib show ?thesis by (simp add: dispatch_inbound continue_state)
next
  case False
  then have "\<not> (sender_of r = Some k \<and> (\<exists>b. map_of (req_form r) ''Body'' = Some b))"
    by (auto simp: sender_of_def inbound_def split: if_splits)
  with False show ?thesis by (auto simp: dispatch_not_inbound)
qed

lemma dispatch_status:
  "fst (app_dispatch debug cfg d r w) =
     (if req_path r = ''/sms'' then
        (if req_method r = ''POST'' then
          (case (map_of (req_form r) ''From'', map_of (req_form r) ''Body'') of
             (None, _) \<Rightarrow> flask_error_status debug (BadRequestKeyError ''From'')
           | (Some _, None) \<Rightarrow> flask_error_status debug (BadRequestKeyError ''Body'')
           | (Some _, Some _) \<Rightarrow> 200)
         else if req_method r = ''OPTIONS'' then 200 else 405)
      else if static_route (req_path r) then static_status (req_method r)
      else 404)"
proof (cases "\<exists>p b. inbound r p b")
  case True
  then obtain p b where "inbound r p b" by blast
  then show ?thesis by (simp add: dispatch_inbound) (simp add: inbound_def)
next
  case False
  then show ?thesis
    by (auto simp: app_dispatch_def incoming_sms_def inbound_def form_getitem_def
        split: option.splits)
qed


lemma dispatch_state_indep:
  "patient_state w = patient_state w' \<Longrightarrow>
   patient_state (snd (app_dispatch debug cfg d r w)) = patient_state (snd (app_dispatch debug cfg d' r w'))"
  by (rule ext) (auto simp: dispatch_store_at)

subsection \<open>Runs of requests\<close>

lemma serve_store_filter:
  "patient_state w k = patient_state w' k \<Longrightarrow>
   patient_state (snd (serve debug cfg rs w)) k =
   patient_state (snd (serve debug cfg (filter (\<lambda>x. sender_of (fst x) = Some k) rs) w')) k"
proof (induction rs arbitrary: w w')
  case Nil
  then show ?case by simp
next
  case (Cons x rs)
  obtain r d where x: "x = (r, d)" by (cases x)
  show ?case
  proof (cases "sender_of r = Some k")
    case True
    with Cons.prems have "patient_state (snd (app_dispatch debug cfg d r w)) k =
                          patient_state (snd (app_dispatch debug cfg d r w')) k"
      by (simp add: dispatch_store_at)
    from Cons.IH [OF this] True x show ?thesis by simp
  next
    case False
    with Cons.prems have "patient_state (snd (app_dispatch debug cfg d r w)) k = patient_state w' k"
      by (simp add: dispatch_store_at)
    from Cons.IH [OF this] False x show ?thesis by simp
  qed
qed

lemma serve_outcome_indep:
  "patient_state w = patient_state w' \<Longrightarrow>
   fst (serve debug cfg rs w) = fst (serve debug cfg (map (\<lambda>x. (fst x, d')) rs) w')
   \<and> patient_state (snd (serve debug cfg rs w)) =
     patient_state (snd (serve debug cfg (map (\<lambda>x. (fst x, d')) rs) w'))"
proof (induction rs arbitrary: w w')
  case Nil
  then show ?case by simp
next
  case (Cons x rs)
  obtain r d where x: "x = (r, d)" by (cases x)
  from Cons.prems have "patient_state (snd (app_dispatch debug cfg d r w)) =
                        patient_state (snd (app_dispatch debug cfg d' r w'))"
    by (rule dispatch_state_indep)
  from Cons.IH [OF this] x show ?case by (simp add: dispatch_status)
qed

lemma spec_next_cycle: "(spec_next ^^ 5) s = s"
  by (cases s rule: spec_next.cases) (simp_all add: numeral_eq_Suc)

lemma spec_next_mod: "(spec_next ^^ n) s = (spec_next ^^ (n mod 5)) s"
  using funpow_mod_eq [where f = spec_next and n = 5 and x = s and m = n] spec_next_cycle by simp

text \<open>The messages of one sender, each with the provider's answer to its reply.\<close>

definition messages_from :: "phone \<Rightarrow> (string \<times> delivery) list \<Rightarrow> (request \<times> delivery) list" where
  "messages_from p msgs = map (\<lambda>(b, d). (sms_post p b, d)) msgs"

lemma messages_from_Cons [simp]:
  "messages_from p ((b, d) # msgs) = (sms_post p b, d) # messages_from p msgs"
  by (simp add: messages_from_def)

lemma messages_from_Nil [simp]: "messages_from p [] = []"
  by (simp add: messages_from_def)

lemma serve_messages_stage:
  "valid_store (patient_state w) \<Longrightarrow>
   abs_store (patient_state (snd (serve debug cfg (messages_from p msgs) w))) p =
   (spec_next ^^ length msgs) (abs_store (patient_state w) p)"
proof (induction msgs arbitrary: w)
  case Nil
  then show ?case by simp
next
  case (Cons m msgs)
  obtain b d where m: "m = (b, d)" by (cases m)
  let ?w1 = "snd (app_dispatch debug cfg d (sms_post p b) w)"
  from Cons.prems have "abs_store (patient_state ?w1) p = spec_next (abs_store (patient_state w) p)"
    using dispatch_refines_step [OF Cons.prems inbound_sms_post] by (simp add: spec_step_def)
  moreover from Cons.prems have "valid_store (patient_state ?w1)" by (rule dispatch_valid)
  ultimately show ?case using Cons.IH m by (simp add: funpow_swap1 del: dispatch_sms_post)
qed


subsection \<open>Properties of the webhook\<close>

text \<open>A configuration and a sender used by the witnesses below.\<close>

subsection \<open>The console\<close>

text \<open>An inbound message, as a test on the request: a POST on \<open>/sms\<close> whose form
  has both fields.\<close>

definition is_inbound :: "request \<Rightarrow> bool" where
  "is_inbound r = (req_path r = ''/sms'' \<and> req_method r = ''POST'' \<and>
                   map_of (req_form r) ''From'' \<noteq> None \<and> map_of (req_form r) ''Body'' \<noteq> None)"

lemma is_inbound_iff: "is_inbound r \<longleftrightarrow> (\<exists>p b. inbound r p b)"
  by (auto simp: is_inbound_def inbound_def)

lemma dispatch_console_inbound:
  assumes "inbound r p b"
  shows "console (snd (app_dispatch debug cfg d r w)) = console w @ [delivery_report d]"
proof (cases "patient_state w p")
  case None
  with assms show ?thesis by (simp add: dispatch_inbound handle_patient_intake_start_def Let_def)
next
  case (Some t)
  with assms show ?thesis
    by (cases t rule: tag_cases) (simp_all add: dispatch_inbound continue_branches intake_tags_def)
qed

lemma dispatch_console:
  "console (snd (app_dispatch debug cfg d r w)) =
     console w @ (if is_inbound r then [delivery_report d] else [])"
  by (cases "is_inbound r") (auto simp: is_inbound_iff dispatch_console_inbound dispatch_not_inbound)

lemma serve_console:
  "console (snd (serve debug cfg rs w)) =
     console w @ map (delivery_report \<circ> snd) (filter (is_inbound \<circ> fst) rs)"
proof (induction rs arbitrary: w)
  case Nil
  then show ?case by simp
next
  case (Cons x rs)
  then show ?case by (cases x) (simp add: dispatch_console)
qed

subsection \<open>The credentials of the SMS sent\<close>

text \<open>Every request in a provider log was made by the client of \<open>cfg\<close> from its number.\<close>

definition sent_with :: "config \<Rightarrow> (sms \<times> delivery) list \<Rightarrow> bool" where
  "sent_with cfg log =
     list_all (\<lambda>x. sms_client (fst x) = make_client cfg \<and> sms_from (fst x) = twilio_phone_number cfg) log"

lemma dispatch_sent_with:
  assumes "sent_with cfg (provider_log w)"
  shows "sent_with cfg (provider_log (snd (app_dispatch debug cfg d r w)))"
proof (cases "\<exists>p b. inbound r p b")
  case True
  then obtain p b where ib: "inbound r p b" by blast
  show ?thesis
  proof (cases "patient_state w p")
    case None
    with ib assms show ?thesis by (simp add: dispatch_inbound sent_with_def)
  next
    case (Some t)
    obtain m where "provider_log (snd (handle_patient_intake_continue cfg d p b w)) =
        provider_log w @ [(\<lparr>sms_client = make_client cfg, sms_to = p, sms_from = twilio_phone_number cfg, sms_body = m\<rparr>, d)]"
      using continue_log by blast
    with ib Some assms show ?thesis by (simp add: dispatch_inbound sent_with_def)
  qed
next
  case False
  with assms show ?thesis by (simp add: dispatch_not_inbound)
qed

lemma serve_sent_with:
  "sent_with cfg (provider_log w) \<Longrightarrow> sent_with cfg (provider_log (snd (serve debug cfg rs w)))"
proof (induction rs arbitrary: w)
  case Nil
  then show ?case by simp
next
  case (Cons x rs)
  then show ?case by (cases x) (simp add: dispatch_sent_with)
qed

definition demo_config :: config where
  "demo_config = \<lparr>account_sid = ''AC0123'', auth_token = ''token'', twilio_phone_number = ''+15550000000''\<rparr>"

definition demo_sender :: phone where
  "demo_sender = ''+15551234567''"

text \<open>
  C1. The first message of a sender the store does not hold starts the intake whatever
  its text: the webhook answers 200, sends the greeting to the sender from the
  configured number, and stores the tag \<open>waiting_for_name\<close> for the sender and nothing
  else.
\<close>

theorem first_message_greets:
  assumes "inbound r p b" "patient_state w p = None"
  shows "fst (app_dispatch debug cfg d r w) = 200
       \<and> patient_state (snd (app_dispatch debug cfg d r w)) = (patient_state w)(p \<mapsto> waiting_for_name)
       \<and> provider_log (snd (app_dispatch debug cfg d r w)) = provider_log w @
           [(\<lparr>sms_client = make_client cfg, sms_to = p, sms_from = twilio_phone_number cfg, sms_body = greeting_msg\<rparr>, d)]"
  using assms by (simp add: dispatch_inbound)

theorem first_message_greets_witness:
  "inbound (sms_post demo_sender ''hi'') demo_sender ''hi'' \<and> patient_state init_world demo_sender = None
   \<and> fst (app_dispatch False demo_config (Delivered ''SM1'') (sms_post demo_sender ''hi'') init_world) = 200
   \<and> patient_state (snd (app_dispatch False demo_config (Delivered ''SM1'') (sms_post demo_sender ''hi'') init_world))
       demo_sender = Some waiting_for_name"
  using first_message_greets [of "sms_post demo_sender ''hi''" demo_sender "''hi''" init_world False
      demo_config "Delivered ''SM1''"]
  by (simp add: init_world_def)

text \<open>
  C2. Refinement: on a store holding only the four tags, an inbound message from
  \<open>p\<close> is answered 200, moves the abstract store (the tags read as the specification's
  stages) by exactly one step of the linear walk at \<open>p\<close>, and sends \<open>p\<close> exactly the
  reply the specification's table gives for \<open>p\<close>'s stage and the message text.
\<close>

theorem inbound_refines_spec:
  assumes "valid_store (patient_state w)" "inbound r p b"
  shows "fst (app_dispatch debug cfg d r w) = 200
       \<and> abs_store (patient_state (snd (app_dispatch debug cfg d r w))) =
           spec_step (abs_store (patient_state w)) p
       \<and> provider_log (snd (app_dispatch debug cfg d r w)) = provider_log w @
           [(\<lparr>sms_client = make_client cfg, sms_to = p, sms_from = twilio_phone_number cfg,
              sms_body = spec_reply (abs_store (patient_state w) p) b\<rparr>, d)]"
  using dispatch_refines_step [OF assms] assms(2) by (simp add: dispatch_inbound)

theorem inbound_refines_spec_witness:
  "valid_store (patient_state (init_world\<lparr>patient_state := [demo_sender \<mapsto> waiting_for_name]\<rparr>))
   \<and> abs_store (patient_state (snd (app_dispatch True demo_config (Failed ''timeout'')
        (sms_post demo_sender ''Jane Doe'') (init_world\<lparr>patient_state := [demo_sender \<mapsto> waiting_for_name]\<rparr>))))
       demo_sender = Some AwaitingIdentifier"
proof -
  let ?w = "init_world\<lparr>patient_state := [demo_sender \<mapsto> waiting_for_name]\<rparr>"
  have v: "valid_store (patient_state ?w)" by (simp add: init_world_def intake_tags_def)
  from inbound_refines_spec [OF v inbound_sms_post [of demo_sender "''Jane Doe''"],
      of True demo_config "Failed ''timeout''"]
  show ?thesis using v by (simp add: init_world_def spec_step_def)
qed

text \<open>
  C3. Invariant: in every world the server can reach from its empty start, whatever
  requests arrived and whatever the provider answered, every value of the store is one
  of the four tags the handlers write.
\<close>

theorem reachable_tags_valid:
  assumes "reachable debug cfg w" "patient_state w p = Some t"
  shows "t \<in> set intake_tags"
  using reachable_valid [OF assms(1)] assms(2) by (rule valid_store_lookup)

theorem reachable_tags_valid_witness:
  "waiting_for_name \<in> set intake_tags"
proof -
  let ?w = "snd (app_dispatch False demo_config (Delivered ''SM1'') (sms_post demo_sender ''hi'') init_world)"
  have r: "reachable False demo_config ?w" by (rule reachable.step [OF reachable.init])
  have "patient_state ?w demo_sender = Some waiting_for_name" by (simp add: init_world_def)
  from reachable_tags_valid [OF r this] show ?thesis .
qed

text \<open>
  C4. Safety: the apology branch of \<open>handle_patient_intake_continue\<close> is dead. In
  every reachable world an inbound message is answered 200 and the SMS it triggers is
  never the apology.
\<close>

theorem reachable_never_apologises:
  assumes "reachable debug cfg w" "inbound r p b"
  shows "fst (app_dispatch debug cfg d r w) = 200
       \<and> sms_body (fst (last (provider_log (snd (app_dispatch debug cfg d r w))))) \<noteq> sorry_msg"
proof -
  have "valid_store (patient_state w)" using assms(1) by (rule reachable_valid)
  from dispatch_refines_step [OF this assms(2)] assms(2) show ?thesis
    by (simp add: dispatch_inbound spec_reply_not_sorry)
qed

theorem reachable_never_apologises_witness:
  "fst (app_dispatch False demo_config (Delivered ''SM2'') (sms_post demo_sender ''Jane'')
        (snd (app_dispatch False demo_config (Delivered ''SM1'') (sms_post demo_sender ''hi'') init_world))) = 200"
proof -
  let ?w = "snd (app_dispatch False demo_config (Delivered ''SM1'') (sms_post demo_sender ''hi'') init_world)"
  have r: "reachable False demo_config ?w" by (rule reachable.step [OF reachable.init])
  from reachable_never_apologises [OF r inbound_sms_post] show ?thesis by blast
qed

text \<open>
  C5. Errors: \<open>incoming_sms\<close> raises exactly when a form field is missing, and then
  \<open>BadRequestKeyError\<close> for the first missing one (\<open>From\<close> is read first); otherwise it
  returns 200. In particular the \<open>del\<close> of the last step never raises \<open>KeyError\<close>.
\<close>

theorem incoming_sms_raises:
  "fst (incoming_sms cfg d f w) =
     (case map_of f ''From'' of
        None \<Rightarrow> Inl (BadRequestKeyError ''From'')
      | Some _ \<Rightarrow> (case map_of f ''Body'' of None \<Rightarrow> Inl (BadRequestKeyError ''Body'') | Some _ \<Rightarrow> Inr 200))"
proof (cases "map_of f ''From''")
  case None
  then show ?thesis by (simp add: incoming_sms_def)
next
  case (Some p)
  show ?thesis
  proof (cases "map_of f ''Body''")
    case None
    with Some show ?thesis by (simp add: incoming_sms_def)
  next
    case (Some b)
    with \<open>map_of f ''From'' = Some p\<close> show ?thesis
      by (cases "patient_state w p") (simp_all add: incoming_new incoming_known)
  qed
qed


text \<open>
  C6. The walk is a cycle of five: from any valid store, after a sender's \<open>n\<close>
  messages (whatever their text and whatever the provider answered) the sender is at
  the stage \<open>n mod 5\<close> steps along the walk from where it was. From absence, five
  messages bring the sender back to absence and a sixth starts a fresh intake.
\<close>

theorem stage_after_messages:
  assumes "valid_store (patient_state w)"
  shows "abs_store (patient_state (snd (serve debug cfg (messages_from p msgs) w))) p =
           (spec_next ^^ (length msgs mod 5)) (abs_store (patient_state w) p)"
  using serve_messages_stage [OF assms] spec_next_mod by metis

theorem stage_after_messages_witness:
  "abs_store (patient_state (snd (serve True demo_config
      (messages_from demo_sender [(''a'', Delivered ''1''), (''b'', Failed ''x''), (''c'', Delivered ''3''),
        (''d'', Delivered ''4''), (''e'', Failed ''y''), (''f'', Delivered ''6''), (''g'', Delivered ''7'')])
      init_world))) demo_sender = Some AwaitingIdentifier"
  (is "abs_store (patient_state (snd (serve True demo_config (messages_from demo_sender ?msgs) init_world))) demo_sender = _")
proof -
  have v: "valid_store (patient_state init_world)" by (simp add: init_world_def)
  have "abs_store (patient_state (snd (serve True demo_config (messages_from demo_sender ?msgs) init_world)))
          demo_sender = (spec_next ^^ (length ?msgs mod 5)) (abs_store (patient_state init_world) demo_sender)"
    by (rule stage_after_messages [OF v])
  also have "\<dots> = Some AwaitingIdentifier"
    by (simp add: init_world_def numeral_2_eq_2)
  finally show ?thesis .
qed

text \<open>
  C7. Isolation: a sender's entry after any sequence of requests is what the requests
  of that sender alone make of it; the requests of other senders, interleaved in any
  order, never affect it.
\<close>

theorem senders_isolated:
  "patient_state (snd (serve debug cfg rs w)) k =
   patient_state (snd (serve debug cfg (filter (\<lambda>x. sender_of (fst x) = Some k) rs) w)) k"
  by (rule serve_store_filter) (rule refl)

text \<open>
  C8. A delivery failure never blocks progress: replacing every answer of the provider
  by any other answer (a failure for each, say) leaves every status and the final store
  unchanged.
\<close>

theorem delivery_outcome_irrelevant:
  "fst (serve debug cfg rs w) = fst (serve debug cfg (map (\<lambda>x. (fst x, d')) rs) w)
   \<and> patient_state (snd (serve debug cfg rs w)) =
     patient_state (snd (serve debug cfg (map (\<lambda>x. (fst x, d')) rs) w))"
  by (rule serve_outcome_indep) (rule refl)

text \<open>
  C9. Exactly one SMS per inbound message and none for any other request: the
  provider log only grows, by one request to the sender from the configured number,
  carrying the provider's answer, when the request is an inbound message, and by
  nothing otherwise.
\<close>

theorem one_sms_per_inbound:
  "take (length (provider_log w)) (provider_log (snd (app_dispatch debug cfg d r w))) = provider_log w
   \<and> map (\<lambda>x. (sms_to (fst x), sms_from (fst x), snd x))
       (drop (length (provider_log w)) (provider_log (snd (app_dispatch debug cfg d r w)))) =
     (if \<exists>p b. inbound r p b then [(the (map_of (req_form r) ''From''), twilio_phone_number cfg, d)] else [])"
proof (cases "\<exists>p b. inbound r p b")
  case True
  then obtain p b where ib: "inbound r p b" by blast
  then have "map_of (req_form r) ''From'' = Some p" by (simp add: inbound_def)
  moreover obtain m where "provider_log (snd (app_dispatch debug cfg d r w)) =
      provider_log w @ [(\<lparr>sms_client = make_client cfg, sms_to = p, sms_from = twilio_phone_number cfg, sms_body = m\<rparr>, d)]"
    using ib continue_log [of cfg d p b w] by (cases "patient_state w p") (auto simp: dispatch_inbound)
  ultimately show ?thesis using True by simp
next
  case False
  then show ?thesis by (simp add: dispatch_not_inbound)
qed

text \<open>
  C10. A request that is not an inbound message changes nothing (no SMS, no console
  line, no store change) and gets the status Flask gives it. On \<open>/sms\<close>: 405 for a
  method other than POST and OPTIONS, 200 for OPTIONS, and for a POST that lacks
  \<open>From\<close> or \<open>Body\<close> 400, or 500 when Flask runs in debug mode. On the default
  static route \<open>/static/<path:filename>\<close>: 404 for GET and HEAD (the repository has no
  static folder), 200 for OPTIONS, 405 otherwise. On every other path: 404. Paths with
  a repeated slash, which Werkzeug redirects to their merged form, are excluded.
\<close>

theorem non_inbound_request:
  assumes "\<nexists>p b. inbound r p b"
      and "\<not> repeated_slash (req_path r)"
  shows "snd (app_dispatch debug cfg d r w) = w
       \<and> fst (app_dispatch debug cfg d r w) =
           (if req_path r = ''/sms'' then
              (if req_method r = ''POST'' then (if debug then 500 else 400)
               else if req_method r = ''OPTIONS'' then 200 else 405)
            else if static_route (req_path r) then
              (if req_method r \<in> {''GET'', ''HEAD''} then 404
               else if req_method r = ''OPTIONS'' then 200 else 405)
            else 404)"
proof -
  have "req_path r = ''/sms'' \<Longrightarrow> req_method r = ''POST'' \<Longrightarrow>
        map_of (req_form r) ''From'' = None \<or> map_of (req_form r) ''Body'' = None"
    using assms(1) by (auto simp: inbound_def)
  then have "fst (app_dispatch debug cfg d r w) =
           (if req_path r = ''/sms'' then
              (if req_method r = ''POST'' then (if debug then 500 else 400)
               else if req_method r = ''OPTIONS'' then 200 else 405)
            else if static_route (req_path r) then
              (if req_method r \<in> {''GET'', ''HEAD''} then 404
               else if req_method r = ''OPTIONS'' then 200 else 405)
            else 404)"
    by (auto simp: dispatch_status flask_error_status_def static_status_def split: option.splits)
  with assms(1) show ?thesis by (simp add: dispatch_not_inbound)
qed

theorem non_inbound_request_witness:
  "fst (app_dispatch False demo_config (Delivered ''SM1'')
     \<lparr>req_method = ''POST'', req_path = ''/sms'', req_form = [(''From'', demo_sender)]\<rparr> init_world) = 400
   \<and> fst (app_dispatch True demo_config (Delivered ''SM1'')
     \<lparr>req_method = ''GET'', req_path = ''/sms'', req_form = []\<rparr> init_world) = 405
   \<and> fst (app_dispatch False demo_config (Delivered ''SM1'')
     \<lparr>req_method = ''POST'', req_path = ''/static/app.js'', req_form = []\<rparr> init_world) = 405"
proof -
  have n1: "\<nexists>p b. inbound \<lparr>req_method = ''POST'', req_path = ''/sms'', req_form = [(''From'', demo_sender)]\<rparr> p b"
    by (simp add: inbound_def)
  have n2: "\<nexists>p b. inbound \<lparr>req_method = ''GET'', req_path = ''/sms'', req_form = []\<rparr> p b"
    by (simp add: inbound_def)
  have n3: "\<nexists>p b. inbound \<lparr>req_method = ''POST'', req_path = ''/static/app.js'', req_form = []\<rparr> p b"
    by (simp add: inbound_def)
  have s1: "\<not> repeated_slash ''/sms''" and s3: "\<not> repeated_slash ''/static/app.js''"
    by simp_all
  have st: "static_route ''/static/app.js''"
    by (simp add: static_route_def)
  show ?thesis
    using non_inbound_request [OF n1, of False demo_config "Delivered ''SM1''" init_world]
      non_inbound_request [OF n2, of True demo_config "Delivered ''SM1''" init_world]
      non_inbound_request [OF n3, of False demo_config "Delivered ''SM1''" init_world] s1 s3 st
    by simp
qed


text \<open>
  C19. Log and continue: an inbound message prints exactly one console line, which
  reports the SID Twilio returned or the error it raised, and the request is answered
  200 either way.
\<close>

theorem inbound_logs_delivery:
  assumes "inbound r p b"
  shows "console (snd (app_dispatch debug cfg d r w)) = console w @ [delivery_report d]
       \<and> fst (app_dispatch debug cfg d r w) = 200"
  using dispatch_console_inbound [OF assms] dispatch_inbound [OF assms] by simp

theorem inbound_logs_delivery_witness:
  "console (snd (app_dispatch True demo_config (Failed ''HTTP 503'') (sms_post demo_sender ''hi'') init_world))
     = [''Error sending SMS: HTTP 503'']"
  using inbound_logs_delivery [OF inbound_sms_post [of demo_sender "''hi''"], of True demo_config
      "Failed ''HTTP 503''" init_world]
  by (simp add: init_world_def delivery_report_def)


end
