(* ===== verification/Concurrency.thy ===== *)
theory Concurrency
  imports Webhook
begin

text \<open>
  Concurrent handling of requests. Flask's development server, started by
  \<open>app.run\<close> (src/main.py line 87), runs each request in its own thread, and the
  handler is not atomic: \<open>incoming_sms\<close> tests membership in \<open>patient_state\<close>
  (line 74); \<open>handle_patient_intake_continue\<close> reads the tag (line 47), calls Twilio,
  which blocks on the network (lines 51, 55, 59, 63, 66), and only then writes or deletes
  the entry (lines 52, 56, 60, 64); \<open>handle_patient_intake_start\<close> sends (line 42)
  and then writes (line 43). Each of these accesses is atomic under the interpreter lock,
  but threads interleave between them. A request is therefore a thread with a program
  counter at one of these points; \<open>thread_step\<close> performs one access; \<open>cstep\<close> lets
  any unfinished thread take its next step; \<open>run_schedule\<close> executes a given order of
  thread steps, which is how the races below are built.
\<close>

datatype write_op = Set_tag string | Delete_entry | No_write

datatype tpc = At_check | At_read | At_send string write_op | At_write write_op | Finished nat

record thread =
  th_sender :: phone
  th_body :: string
  th_outcome :: delivery
  th_pc :: tpc

definition new_thread :: "phone \<Rightarrow> string \<Rightarrow> delivery \<Rightarrow> thread" where
  "new_thread p b d = \<lparr>th_sender = p, th_body = b, th_outcome = d, th_pc = At_check\<rparr>"

definition finished :: "thread \<Rightarrow> bool" where
  "finished th = (case th_pc th of Finished _ \<Rightarrow> True | _ \<Rightarrow> False)"

text \<open>What the continue handler decides once it has read the tag: the reply and the
  write it will make after sending it.\<close>

definition continue_plan :: "string option \<Rightarrow> string \<Rightarrow> string \<times> write_op" where
  "continue_plan current_state patient_reply =
     (if current_state = Some waiting_for_name then
        (name_reply (py_strip patient_reply), Set_tag waiting_for_ohip)
      else if current_state = Some waiting_for_ohip then
        (ohip_reply (py_strip patient_reply), Set_tag waiting_for_appointment_type)
      else if current_state = Some waiting_for_appointment_type then
        (appointment_reply (py_strip patient_reply), Set_tag waiting_for_complaint)
      else if current_state = Some waiting_for_complaint then
        (complaint_reply (py_strip patient_reply), Delete_entry)
      else (sorry_msg, No_write))"

definition thread_step :: "bool \<Rightarrow> config \<Rightarrow> thread \<Rightarrow> app_world \<Rightarrow> thread \<times> app_world" where
  "thread_step debug cfg th w =
     (case th_pc th of
        At_check \<Rightarrow>
          (if patient_state w (th_sender th) = None
           then (th\<lparr>th_pc := At_send greeting_msg (Set_tag waiting_for_name)\<rparr>, w)
           else (th\<lparr>th_pc := At_read\<rparr>, w))
      | At_read \<Rightarrow>
          (case continue_plan (patient_state w (th_sender th)) (th_body th) of
             (msg, op) \<Rightarrow> (th\<lparr>th_pc := At_send msg op\<rparr>, w))
      | At_send msg op \<Rightarrow>
          (th\<lparr>th_pc := At_write op\<rparr>, send_sms cfg (th_outcome th) (th_sender th) msg w)
      | At_write (Set_tag v) \<Rightarrow>
          (th\<lparr>th_pc := Finished 200\<rparr>, w\<lparr>patient_state := (patient_state w)(th_sender th \<mapsto> v)\<rparr>)
      | At_write Delete_entry \<Rightarrow>
          (case py_del (patient_state w) (th_sender th) of
             Inl e \<Rightarrow> (th\<lparr>th_pc := Finished (flask_error_status debug e)\<rparr>, w)
           | Inr ps \<Rightarrow> (th\<lparr>th_pc := Finished 200\<rparr>, w\<lparr>patient_state := ps\<rparr>))
      | At_write No_write \<Rightarrow> (th\<lparr>th_pc := Finished 200\<rparr>, w)
      | Finished s \<Rightarrow> (th, w))"

declare continue_plan_def [model_defs] thread_step_def [model_defs]

text \<open>The server: any unfinished thread may take its next step.\<close>

type_synonym server = "thread list \<times> app_world"

inductive cstep :: "bool \<Rightarrow> config \<Rightarrow> server \<Rightarrow> server \<Rightarrow> bool" for debug cfg where
  run: "i < length ts \<Longrightarrow> \<not> finished (ts ! i) \<Longrightarrow> thread_step debug cfg (ts ! i) w = (t', w') \<Longrightarrow>
        cstep debug cfg (ts, w) (ts[i := t'], w')"

inductive_cases cstepE: "cstep debug cfg s s'"

text \<open>Executing a schedule, a list of thread indices; an index of a finished or
  missing thread is skipped.\<close>

fun run_schedule :: "bool \<Rightarrow> config \<Rightarrow> nat list \<Rightarrow> server \<Rightarrow> server" where
  "run_schedule debug cfg [] s = s"
| "run_schedule debug cfg (i # is) (ts, w) =
     (if i < length ts \<and> \<not> finished (ts ! i)
      then (case thread_step debug cfg (ts ! i) w of
              (t', w') \<Rightarrow> run_schedule debug cfg is (ts[i := t'], w'))
      else run_schedule debug cfg is (ts, w))"

definition all_finished :: "thread list \<Rightarrow> bool" where
  "all_finished ts = list_all finished ts"

lemma run_schedule_reaches: "(cstep debug cfg)\<^sup>*\<^sup>* s (run_schedule debug cfg is s)"
proof (induction "is" arbitrary: s)
  case Nil
  then show ?case by simp
next
  case (Cons i "is")
  obtain ts w where s: "s = (ts, w)" by (cases s)
  show ?case
  proof (cases "i < length ts \<and> \<not> finished (ts ! i)")
    case True
    obtain t' w' where st: "thread_step debug cfg (ts ! i) w = (t', w')"
      by (cases "thread_step debug cfg (ts ! i) w")
    from True st have "cstep debug cfg (ts, w) (ts[i := t'], w')" by (blast intro: cstep.run)
    with Cons.IH [of "(ts[i := t'], w')"] True st s show ?thesis
      by (simp add: converse_rtranclp_into_rtranclp)
  next
    case False
    with Cons.IH [of s] s show ?thesis by auto
  qed
qed

lemma run_schedule_append:
  "run_schedule debug cfg (xs @ ys) s = run_schedule debug cfg ys (run_schedule debug cfg xs s)"
proof (induction xs arbitrary: s)
  case Nil
  then show ?case by simp
next
  case (Cons i xs)
  then show ?case by (cases s) (simp split: prod.splits)
qed

subsection \<open>Requests as threads\<close>

definition request_threads :: "(phone \<times> string \<times> delivery) list \<Rightarrow> thread list" where
  "request_threads reqs = map (\<lambda>(p, b, d). new_thread p b d) reqs"

definition request_posts :: "(phone \<times> string \<times> delivery) list \<Rightarrow> (request \<times> delivery) list" where
  "request_posts reqs = map (\<lambda>(p, b, d). (sms_post p b, d)) reqs"

subsection \<open>Properties of the threaded server\<close>

text \<open>
  The schedules below run two messages of one sender, sent while the sender is at an
  intake step, as two threads over any world. Each thread's reply is the one the handler
  gives when that message is served alone, yet the store ends as if only the first
  message had been served.
\<close>

lemmas thread_simps = new_thread_def thread_step_def finished_def continue_plan_def

text \<open>A world where \<open>demo_sender\<close> is at a given step, for the witnesses below.\<close>

definition racing_world :: "string \<Rightarrow> app_world" where
  "racing_world t = init_world\<lparr>patient_state := [demo_sender \<mapsto> t]\<rparr>"

lemmas schedule_simps = racing_world_def init_world_def thread_simps py_strip_def py_isspace_def

text \<open>
  C14. Lost update: two messages of one sender at the name, health-card or appointment
  step can interleave so that both read the same tag. Both threads finish with 200,
  and each patient reply is the one its message gets when served alone. The store ends
  as after the first message alone, one step on, whereas served one after the other the
  same two messages leave the sender at a different step.
\<close>

theorem lost_update:
  assumes "patient_state w p = Some t"
      and "t \<in> {waiting_for_name, waiting_for_ohip, waiting_for_appointment_type}"
  shows "\<exists>s. (cstep debug cfg)\<^sup>*\<^sup>* ([new_thread p b1 d1, new_thread p b2 d2], w) s
     \<and> map th_pc (fst s) = [Finished 200, Finished 200]
     \<and> provider_log (snd s) = provider_log (snd (app_dispatch debug cfg d1 (sms_post p b1) w))
          @ drop (length (provider_log w)) (provider_log (snd (app_dispatch debug cfg d2 (sms_post p b2) w)))
     \<and> patient_state (snd s) = patient_state (snd (app_dispatch debug cfg d1 (sms_post p b1) w))
     \<and> patient_state (snd (serve debug cfg [(sms_post p b1, d1), (sms_post p b2, d2)] w)) p
         \<noteq> patient_state (snd s) p"
proof -
  let ?init = "([new_thread p b1 d1, new_thread p b2 d2], w)"
  let ?s = "run_schedule debug cfg [0, 1, 0, 1, 0, 1, 0, 1] ?init"
  have r: "(cstep debug cfg)\<^sup>*\<^sup>* ?init ?s" by (rule run_schedule_reaches)
  have c1: "map th_pc (fst ?s) = [Finished 200, Finished 200]"
    using assms(2) by (elim insertE emptyE) (simp_all add: assms(1) thread_simps)
  have c2: "provider_log (snd ?s) = provider_log (snd (app_dispatch debug cfg d1 (sms_post p b1) w))
          @ drop (length (provider_log w)) (provider_log (snd (app_dispatch debug cfg d2 (sms_post p b2) w)))"
    using assms(2) by (elim insertE emptyE) (simp_all add: assms(1) thread_simps continue_branches)
  have c3: "patient_state (snd ?s) = patient_state (snd (app_dispatch debug cfg d1 (sms_post p b1) w))"
    using assms(2) by (elim insertE emptyE) (simp_all add: assms(1) thread_simps continue_branches)
  have c4: "patient_state (snd (serve debug cfg [(sms_post p b1, d1), (sms_post p b2, d2)] w)) p
         \<noteq> patient_state (snd ?s) p"
    using assms(2) by (elim insertE emptyE) (simp_all add: assms(1) thread_simps continue_branches)
  show ?thesis by (rule exI [of _ ?s]) (intro conjI r c1 c2 c3 c4)
qed


theorem lost_update_witness:
  "\<exists>s. (cstep True demo_config)\<^sup>*\<^sup>* ([new_thread demo_sender ''Jane'' (Delivered ''SM1''),
            new_thread demo_sender ''Jane Doe'' (Delivered ''SM2'')], racing_world waiting_for_name) s
     \<and> map th_pc (fst s) = [Finished 200, Finished 200]
     \<and> provider_log (snd s) = provider_log (snd (app_dispatch True demo_config (Delivered ''SM1'')
              (sms_post demo_sender ''Jane'') (racing_world waiting_for_name)))
          @ drop (length (provider_log (racing_world waiting_for_name)))
              (provider_log (snd (app_dispatch True demo_config (Delivered ''SM2'')
                 (sms_post demo_sender ''Jane Doe'') (racing_world waiting_for_name))))
     \<and> patient_state (snd s) = patient_state (snd (app_dispatch True demo_config (Delivered ''SM1'')
              (sms_post demo_sender ''Jane'') (racing_world waiting_for_name)))
     \<and> patient_state (snd (serve True demo_config [(sms_post demo_sender ''Jane'', Delivered ''SM1''),
          (sms_post demo_sender ''Jane Doe'', Delivered ''SM2'')] (racing_world waiting_for_name))) demo_sender
         \<noteq> patient_state (snd s) demo_sender"
  by (rule lost_update [where t = waiting_for_name]) (simp_all add: racing_world_def)

text \<open>
  C15. A double completion fails: two messages of one sender at the complaint step can
  both read \<open>waiting_for_complaint\<close>, and both send the completion notice the
  message gets when served alone. The first deletes the entry; the second's \<open>del\<close>
  raises \<open>KeyError\<close>, which Flask answers with status 500 in either mode, although
  the patient received its notice.
\<close>

theorem double_delete_500:
  assumes "patient_state w p = Some waiting_for_complaint"
  shows "\<exists>s. (cstep debug cfg)\<^sup>*\<^sup>* ([new_thread p b1 d1, new_thread p b2 d2], w) s
     \<and> map th_pc (fst s) = [Finished 200, Finished 500]
     \<and> provider_log (snd s) = provider_log (snd (app_dispatch debug cfg d1 (sms_post p b1) w))
          @ drop (length (provider_log w)) (provider_log (snd (app_dispatch debug cfg d2 (sms_post p b2) w)))
     \<and> patient_state (snd s) = patient_state (snd (app_dispatch debug cfg d1 (sms_post p b1) w))"
proof -
  let ?init = "([new_thread p b1 d1, new_thread p b2 d2], w)"
  let ?s = "run_schedule debug cfg [0, 1, 0, 1, 0, 1, 0, 1] ?init"
  have r: "(cstep debug cfg)\<^sup>*\<^sup>* ?init ?s" by (rule run_schedule_reaches)
  have c1: "map th_pc (fst ?s) = [Finished 200, Finished 500]"
    by (simp add: assms thread_simps flask_error_status_def)
  have c2: "provider_log (snd ?s) = provider_log (snd (app_dispatch debug cfg d1 (sms_post p b1) w))
          @ drop (length (provider_log w)) (provider_log (snd (app_dispatch debug cfg d2 (sms_post p b2) w)))"
    by (simp add: assms thread_simps continue_branches)
  have c3: "patient_state (snd ?s) = patient_state (snd (app_dispatch debug cfg d1 (sms_post p b1) w))"
    by (simp add: assms thread_simps continue_branches)
  show ?thesis by (rule exI [of _ ?s]) (intro conjI r c1 c2 c3)
qed


theorem double_delete_500_witness:
  "\<exists>s. (cstep True demo_config)\<^sup>*\<^sup>* ([new_thread demo_sender ''knee pain'' (Delivered ''SM1''),
            new_thread demo_sender ''and fever'' (Delivered ''SM2'')], racing_world waiting_for_complaint) s
     \<and> map th_pc (fst s) = [Finished 200, Finished 500]
     \<and> provider_log (snd s) = provider_log (snd (app_dispatch True demo_config (Delivered ''SM1'')
              (sms_post demo_sender ''knee pain'') (racing_world waiting_for_complaint)))
          @ drop (length (provider_log (racing_world waiting_for_complaint)))
              (provider_log (snd (app_dispatch True demo_config (Delivered ''SM2'')
                 (sms_post demo_sender ''and fever'') (racing_world waiting_for_complaint))))
     \<and> patient_state (snd s) = patient_state (snd (app_dispatch True demo_config (Delivered ''SM1'')
              (sms_post demo_sender ''knee pain'') (racing_world waiting_for_complaint)))"
  by (rule double_delete_500) (simp add: racing_world_def)

text \<open>
  C16. The apology branch is reachable under interleaving: a message of a sender at the
  complaint step that passes the membership test of \<open>incoming_sms\<close> while another
  message of the same sender is completing the intake reads no tag. The patient then
  gets the completion notice and the apology, although no sequential run ever sends the
  apology (C4).
\<close>

theorem interleaved_apology:
  assumes "patient_state w p = Some waiting_for_complaint"
  shows "\<exists>s. (cstep debug cfg)\<^sup>*\<^sup>* ([new_thread p b1 d1, new_thread p b2 d2], w) s
     \<and> map th_pc (fst s) = [Finished 200, Finished 200]
     \<and> provider_log (snd s) = provider_log (snd (app_dispatch debug cfg d1 (sms_post p b1) w))
          @ [(\<lparr>sms_client = make_client cfg, sms_to = p, sms_from = twilio_phone_number cfg,
               sms_body = sorry_msg\<rparr>, d2)]
     \<and> patient_state (snd s) = patient_state (snd (app_dispatch debug cfg d1 (sms_post p b1) w))"
proof -
  let ?init = "([new_thread p b1 d1, new_thread p b2 d2], w)"
  let ?s = "run_schedule debug cfg [1, 0, 0, 0, 0, 1, 1, 1] ?init"
  have r: "(cstep debug cfg)\<^sup>*\<^sup>* ?init ?s" by (rule run_schedule_reaches)
  have c1: "map th_pc (fst ?s) = [Finished 200, Finished 200]"
    by (simp add: assms thread_simps)
  have c2: "provider_log (snd ?s) = provider_log (snd (app_dispatch debug cfg d1 (sms_post p b1) w))
          @ [(\<lparr>sms_client = make_client cfg, sms_to = p, sms_from = twilio_phone_number cfg,
               sms_body = sorry_msg\<rparr>, d2)]"
    by (simp add: assms thread_simps continue_branches)
  have c3: "patient_state (snd ?s) = patient_state (snd (app_dispatch debug cfg d1 (sms_post p b1) w))"
    by (simp add: assms thread_simps continue_branches)
  show ?thesis by (rule exI [of _ ?s]) (intro conjI r c1 c2 c3)
qed


theorem interleaved_apology_witness:
  "\<exists>s. (cstep True demo_config)\<^sup>*\<^sup>* ([new_thread demo_sender ''knee pain'' (Delivered ''SM1''),
            new_thread demo_sender ''thanks'' (Delivered ''SM2'')], racing_world waiting_for_complaint) s
     \<and> map th_pc (fst s) = [Finished 200, Finished 200]
     \<and> provider_log (snd s) = provider_log (snd (app_dispatch True demo_config (Delivered ''SM1'')
              (sms_post demo_sender ''knee pain'') (racing_world waiting_for_complaint)))
          @ [(\<lparr>sms_client = make_client demo_config, sms_to = demo_sender,
               sms_from = twilio_phone_number demo_config, sms_body = sorry_msg\<rparr>, Delivered ''SM2'')]
     \<and> patient_state (snd s) = patient_state (snd (app_dispatch True demo_config (Delivered ''SM1'')
              (sms_post demo_sender ''knee pain'') (racing_world waiting_for_complaint)))"
  by (rule interleaved_apology) (simp add: racing_world_def)

end
