(* ===== verification/Serializability.thy ===== *)
theory Serializability
  imports Concurrency "HOL-Library.Multiset"
begin

text \<open>
  When the requests in flight come from distinct senders, the threaded server of
  \<open>Concurrency\<close> behaves like the sequential one. The proof is an invariant of the
  server relative to the store \<open>ps0\<close> it started from: each thread's entry is untouched
  until its write, the write it has planned is the one the sequential handler would make
  on \<open>ps0\<close> (\<open>planned_op\<close>), and once finished its entry holds the sequential result
  (\<open>final_val\<close>); entries of numbers with no thread keep their value. A step of one
  thread touches only its own sender's entry, so with distinct senders the invariant of
  every other thread is kept (\<open>thread_inv_frame\<close>). A second invariant,
  \<open>log_inv\<close>, counts the SMS sent: the provider log is the starting log plus, as a
  multiset, the planned reply of every thread that has passed its Twilio call.
\<close>

subsection \<open>The store\<close>

definition planned_op :: "string option \<Rightarrow> string \<Rightarrow> write_op" where
  "planned_op v b = (if v = None then Set_tag waiting_for_name else snd (continue_plan v b))"

definition planned_msg :: "string option \<Rightarrow> string \<Rightarrow> string" where
  "planned_msg v b = (if v = None then greeting_msg else fst (continue_plan v b))"

definition final_val :: "string option \<Rightarrow> string option" where
  "final_val v = (if v = None then Some waiting_for_name else continue_tag v)"

fun apply_op :: "write_op \<Rightarrow> string option \<Rightarrow> string option" where
  "apply_op (Set_tag t) v = Some t"
| "apply_op Delete_entry v = None"
| "apply_op No_write v = v"

lemma apply_planned_op: "apply_op (planned_op v b) v = final_val v"
  by (auto simp: planned_op_def final_val_def continue_plan_def continue_tag_def)

lemma planned_delete: "planned_op v b = Delete_entry \<Longrightarrow> v = Some waiting_for_complaint"
  by (auto simp: planned_op_def continue_plan_def split: if_splits)

lemma planned_no_write: "planned_op v b = No_write \<Longrightarrow> final_val v = v"
  using apply_planned_op [of v b] by simp

definition thread_inv :: "(phone \<rightharpoonup> string) \<Rightarrow> (phone \<rightharpoonup> string) \<Rightarrow> thread \<Rightarrow> bool" where
  "thread_inv ps0 ps th =
     (let v = ps0 (th_sender th) in
      case th_pc th of
        At_check \<Rightarrow> ps (th_sender th) = v
      | At_read \<Rightarrow> ps (th_sender th) = v \<and> v \<noteq> None
      | At_send msg op \<Rightarrow> ps (th_sender th) = v \<and> msg = planned_msg v (th_body th)
                              \<and> op = planned_op v (th_body th)
      | At_write op \<Rightarrow> ps (th_sender th) = v \<and> op = planned_op v (th_body th)
      | Finished s \<Rightarrow> ps (th_sender th) = final_val v \<and> s = 200)"

lemma thread_inv_frame:
  "ps' (th_sender th) = ps (th_sender th) \<Longrightarrow> thread_inv ps0 ps' th = thread_inv ps0 ps th"
  by (simp add: thread_inv_def Let_def split: tpc.split)

lemma thread_step_same_request:
  "th_sender (fst (thread_step debug cfg th w)) = th_sender th
   \<and> th_body (fst (thread_step debug cfg th w)) = th_body th
   \<and> th_outcome (fst (thread_step debug cfg th w)) = th_outcome th"
  by (auto simp: thread_step_def split: tpc.splits write_op.splits sum.splits prod.splits)

lemma thread_step_frame:
  "k \<noteq> th_sender th \<Longrightarrow> patient_state (snd (thread_step debug cfg th w)) k = patient_state w k"
  by (auto simp: thread_step_def py_del_def split: tpc.splits write_op.splits sum.splits prod.splits if_splits)

lemma thread_step_inv:
  assumes "thread_inv ps0 (patient_state w) th" "\<not> finished th"
  shows "thread_inv ps0 (patient_state (snd (thread_step debug cfg th w))) (fst (thread_step debug cfg th w))"
proof (cases "th_pc th")
  case At_check
  with assms show ?thesis
    by (auto simp: thread_inv_def thread_step_def planned_op_def planned_msg_def Let_def)
next
  case At_read
  with assms show ?thesis
    by (auto simp: thread_inv_def thread_step_def planned_op_def planned_msg_def Let_def split: prod.splits)
next
  case (At_send msg op)
  with assms show ?thesis
    by (simp add: thread_inv_def thread_step_def Let_def)
next
  case (At_write op)
  let ?p = "th_sender th" and ?v = "ps0 (th_sender th)"
  from assms(1) At_write have ps: "patient_state w ?p = ?v" and pl: "planned_op ?v (th_body th) = op"
    by (simp_all add: thread_inv_def Let_def)
  have fv: "final_val ?v = apply_op op ?v" using apply_planned_op [of ?v "th_body th"] pl by simp
  show ?thesis
  proof (cases op)
    case (Set_tag t)
    with At_write fv show ?thesis by (simp add: thread_inv_def thread_step_def Let_def)
  next
    case Delete_entry
    with pl have "?v = Some waiting_for_complaint" by (simp add: planned_delete)
    with At_write Delete_entry fv ps show ?thesis by (simp add: thread_inv_def thread_step_def Let_def)
  next
    case No_write
    with At_write fv ps show ?thesis by (simp add: thread_inv_def thread_step_def Let_def)
  qed
next
  case (Finished s)
  with assms show ?thesis by (simp add: finished_def)
qed

definition same_request :: "thread \<Rightarrow> thread \<Rightarrow> bool" where
  "same_request th0 th =
     (th_sender th = th_sender th0 \<and> th_body th = th_body th0 \<and> th_outcome th = th_outcome th0)"

definition serial_inv :: "(phone \<rightharpoonup> string) \<Rightarrow> thread list \<Rightarrow> server \<Rightarrow> bool" where
  "serial_inv ps0 ts0 s =
     (length (fst s) = length ts0
      \<and> (\<forall>i < length ts0. same_request (ts0 ! i) (fst s ! i)
                          \<and> thread_inv ps0 (patient_state (snd s)) (fst s ! i))
      \<and> (\<forall>k. k \<notin> set (map th_sender ts0) \<longrightarrow> patient_state (snd s) k = ps0 k))"

lemma serial_inv_init:
  "list_all (\<lambda>th. th_pc th = At_check) ts0 \<Longrightarrow> serial_inv (patient_state w) ts0 (ts0, w)"
  by (auto simp: serial_inv_def same_request_def thread_inv_def list_all_length)

lemma serial_inv_step:
  assumes "cstep debug cfg s s'" "serial_inv ps0 ts0 s" "distinct (map th_sender ts0)"
  shows "serial_inv ps0 ts0 s'"
  using assms(1)
proof (cases rule: cstep.cases)
  case (run i ts w t' w')
  let ?p = "th_sender (ts ! i)"
  from assms(2) run have len: "length ts = length ts0" and i0: "i < length ts0"
    and req: "\<And>j. j < length ts0 \<Longrightarrow> same_request (ts0 ! j) (ts ! j)"
    and inv: "\<And>j. j < length ts0 \<Longrightarrow> thread_inv ps0 (patient_state w) (ts ! j)"
    and out: "\<And>k. k \<notin> set (map th_sender ts0) \<Longrightarrow> patient_state w k = ps0 k"
    by (auto simp: serial_inv_def)
  have st: "t' = fst (thread_step debug cfg (ts ! i) w)" "w' = snd (thread_step debug cfg (ts ! i) w)"
    using run by simp_all
  have frame: "\<And>k. k \<noteq> ?p \<Longrightarrow> patient_state w' k = patient_state w k"
    using st thread_step_frame by metis
  have pi: "?p = th_sender (ts0 ! i)" using req [OF i0] by (simp add: same_request_def)
  have others: "\<And>j. j < length ts0 \<Longrightarrow> j \<noteq> i \<Longrightarrow> th_sender (ts ! j) \<noteq> ?p"
  proof -
    fix j assume "j < length ts0" "j \<noteq> i"
    with assms(3) i0 have "th_sender (ts0 ! j) \<noteq> th_sender (ts0 ! i)"
      by (simp add: distinct_conv_nth)
    with req [OF \<open>j < length ts0\<close>] pi show "th_sender (ts ! j) \<noteq> ?p"
      by (simp add: same_request_def)
  qed
  have new_inv: "thread_inv ps0 (patient_state w') t'"
    using thread_step_inv [OF inv [OF i0] run(4)] st by simp
  have new_req: "same_request (ts0 ! i) t'"
    using req [OF i0] thread_step_same_request [of debug cfg "ts ! i" w] st
    by (simp add: same_request_def)
  have "\<forall>j < length ts0. same_request (ts0 ! j) (ts[i := t'] ! j)
          \<and> thread_inv ps0 (patient_state w') (ts[i := t'] ! j)"
  proof (intro allI impI)
    fix j assume j: "j < length ts0"
    show "same_request (ts0 ! j) (ts[i := t'] ! j) \<and> thread_inv ps0 (patient_state w') (ts[i := t'] ! j)"
    proof (cases "j = i")
      case True
      with new_inv new_req len j show ?thesis by simp
    next
      case False
      with j others have "patient_state w' (th_sender (ts ! j)) = patient_state w (th_sender (ts ! j))"
        by (simp add: frame)
      with False j inv req len show ?thesis
        using thread_inv_frame [of "patient_state w'" "ts ! j" "patient_state w" ps0] by simp
    qed
  qed
  moreover have "\<forall>k. k \<notin> set (map th_sender ts0) \<longrightarrow> patient_state w' k = ps0 k"
  proof (intro allI impI)
    fix k assume k: "k \<notin> set (map th_sender ts0)"
    have "?p \<in> set (map th_sender ts0)" using pi i0 by simp
    with k have "k \<noteq> ?p" by auto
    with k show "patient_state w' k = ps0 k" by (simp add: frame out)
  qed
  ultimately show ?thesis using run len by (simp add: serial_inv_def)
qed

lemma serial_inv_reach:
  assumes "(cstep debug cfg)\<^sup>*\<^sup>* s s'" "serial_inv ps0 ts0 s" "distinct (map th_sender ts0)"
  shows "serial_inv ps0 ts0 s'"
  using assms by (induction rule: rtranclp_induct) (auto intro: serial_inv_step)

lemma serial_inv_final:
  assumes "serial_inv ps0 ts0 (ts, w)" "all_finished ts"
  shows "patient_state w k = (if k \<in> set (map th_sender ts0) then final_val (ps0 k) else ps0 k)"
    and "map th_pc ts = replicate (length ts0) (Finished 200)"
proof -
  from assms(1) have len: "length ts = length ts0" by (simp add: serial_inv_def)
  have fin: "\<And>j. j < length ts0 \<Longrightarrow> th_pc (ts ! j) = Finished 200
                 \<and> patient_state w (th_sender (ts0 ! j)) = final_val (ps0 (th_sender (ts0 ! j)))"
  proof -
    fix j assume j: "j < length ts0"
    with assms(2) len have "finished (ts ! j)" by (simp add: all_finished_def list_all_length)
    then obtain st where pc: "th_pc (ts ! j) = Finished st"
      by (cases "th_pc (ts ! j)") (simp_all add: finished_def)
    from assms(1) j have "same_request (ts0 ! j) (ts ! j)" "thread_inv ps0 (patient_state w) (ts ! j)"
      by (auto simp: serial_inv_def)
    with pc show "th_pc (ts ! j) = Finished 200
                 \<and> patient_state w (th_sender (ts0 ! j)) = final_val (ps0 (th_sender (ts0 ! j)))"
      by (simp add: thread_inv_def same_request_def)
  qed
  show "patient_state w k = (if k \<in> set (map th_sender ts0) then final_val (ps0 k) else ps0 k)"
  proof (cases "k \<in> set (map th_sender ts0)")
    case True
    then obtain j where "j < length ts0" "k = th_sender (ts0 ! j)" by (auto simp: set_conv_nth)
    with fin True show ?thesis by simp
  next
    case False
    with assms(1) show ?thesis by (simp add: serial_inv_def)
  qed
  show "map th_pc ts = replicate (length ts0) (Finished 200)"
    using fin len by (simp add: list_eq_iff_nth_eq)
qed

lemma request_threads_senders: "map th_sender (request_threads reqs) = map fst reqs"
  by (induction reqs) (auto simp: request_threads_def new_thread_def)

lemma request_threads_at_check: "list_all (\<lambda>th. th_pc th = At_check) (request_threads reqs)"
  by (induction reqs) (auto simp: request_threads_def new_thread_def)

lemma serve_distinct_store:
  "distinct (map fst reqs) \<Longrightarrow>
   patient_state (snd (serve debug cfg (request_posts reqs) w)) k =
     (if k \<in> fst ` set reqs then final_val (patient_state w k) else patient_state w k)"
proof (induction reqs arbitrary: w)
  case Nil
  then show ?case by (simp add: request_posts_def)
next
  case (Cons x reqs)
  obtain p b d where x: "x = (p, b, d)" by (cases x)
  let ?w1 = "snd (app_dispatch debug cfg d (sms_post p b) w)"
  have w1: "patient_state ?w1 = (patient_state w)(p := final_val (patient_state w p))"
    by (simp add: final_val_def continue_state)
  from Cons.prems x have "p \<notin> fst ` set reqs" "distinct (map fst reqs)" by auto
  with Cons.IH [of ?w1] x w1 show ?case by (auto simp: request_posts_def)
qed

text \<open>
  C17. Serializability under a per-sender discipline: when the requests in flight have
  pairwise distinct senders, every interleaving that answers them all leaves the store
  exactly as the sequential server leaves it, and every request is answered 200. The
  races of C14 to C16 need two requests of one sender in flight at once.
\<close>

theorem distinct_senders_serializable:
  assumes "distinct (map fst reqs)"
    and "(cstep debug cfg)\<^sup>*\<^sup>* (request_threads reqs, w) (ts, w')"
    and "all_finished ts"
  shows "patient_state w' = patient_state (snd (serve debug cfg (request_posts reqs) w))
       \<and> map th_pc ts = replicate (length reqs) (Finished 200)"
proof -
  have d: "distinct (map th_sender (request_threads reqs))"
    using assms(1) by (simp add: request_threads_senders)
  have "serial_inv (patient_state w) (request_threads reqs) (ts, w')"
    using serial_inv_reach [OF assms(2) serial_inv_init [OF request_threads_at_check] d] .
  note fin = serial_inv_final [OF this assms(3)]
  have "patient_state w' k = patient_state (snd (serve debug cfg (request_posts reqs) w)) k" for k
    using fin(1) [of k] serve_distinct_store [OF assms(1)]
    by (simp add: request_threads_senders)
  with fin(2) show ?thesis by (auto simp: request_threads_def)
qed

theorem distinct_senders_serializable_witness:
  "patient_state (snd (run_schedule False demo_config [0, 1, 0, 1, 0, 1, 0, 1]
      (request_threads [(''+15550000001'', ''hi'', Delivered ''SM1''), (''+15550000002'', ''hello'', Failed ''x'')],
       init_world)))
   = patient_state (snd (serve False demo_config
      (request_posts [(''+15550000001'', ''hi'', Delivered ''SM1''), (''+15550000002'', ''hello'', Failed ''x'')])
      init_world))"
proof -
  let ?reqs = "[(''+15550000001'', ''hi'', Delivered ''SM1''), (''+15550000002'', ''hello'', Failed ''x'')]"
  let ?s = "run_schedule False demo_config [0, 1, 0, 1, 0, 1, 0, 1] (request_threads ?reqs, init_world)"
  have d: "distinct (map fst ?reqs)" by simp
  have r: "(cstep False demo_config)\<^sup>*\<^sup>* (request_threads ?reqs, init_world) (fst ?s, snd ?s)"
    unfolding prod.collapse by (rule run_schedule_reaches)
  have f: "all_finished (fst ?s)"
    by (simp add: request_threads_def all_finished_def new_thread_def thread_step_def finished_def init_world_def)
  from distinct_senders_serializable [OF d r f] show ?thesis by simp
qed

subsection \<open>The replies sent\<close>

definition has_sent :: "thread \<Rightarrow> bool" where
  "has_sent th = (case th_pc th of At_write _ \<Rightarrow> True | Finished _ \<Rightarrow> True | _ \<Rightarrow> False)"

definition reply_entry :: "config \<Rightarrow> (phone \<rightharpoonup> string) \<Rightarrow> thread \<Rightarrow> sms \<times> delivery" where
  "reply_entry cfg ps0 th =
     (\<lparr>sms_client = make_client cfg, sms_to = th_sender th, sms_from = twilio_phone_number cfg,
       sms_body = planned_msg (ps0 (th_sender th)) (th_body th)\<rparr>, th_outcome th)"

definition log_inv :: "config \<Rightarrow> (phone \<rightharpoonup> string) \<Rightarrow> (sms \<times> delivery) list \<Rightarrow> server \<Rightarrow> bool" where
  "log_inv cfg ps0 log0 s =
     (mset (provider_log (snd s)) = mset log0 + mset (map (reply_entry cfg ps0) (filter has_sent (fst s))))"

lemma mset_filter_update:
  assumes "i < length ts"
  shows "mset (map f (filter P (ts[i := x]))) + (if P (ts ! i) then {#f (ts ! i)#} else {#}) =
   mset (map f (filter P ts)) + (if P x then {#f x#} else {#})"
proof -
  let ?M = "mset ts - {#ts ! i#}"
  let ?g = "\<lambda>N. image_mset f (filter_mset P N)"
  have m: "mset ts = add_mset (ts ! i) ?M" using assms by (simp add: insert_DiffM)
  have u: "mset (ts[i := x]) = add_mset x ?M" using assms by (simp add: mset_update)
  have l: "mset (map f (filter P (ts[i := x]))) = ?g (add_mset x ?M)"
    using arg_cong [OF u, of ?g] by simp
  have r: "mset (map f (filter P ts)) = ?g (add_mset (ts ! i) ?M)"
    using arg_cong [OF m, of ?g] by simp
  show ?thesis unfolding l r by simp
qed

lemma thread_step_log:
  assumes "thread_inv ps0 (patient_state w) th" "\<not> finished th"
  shows "provider_log (snd (thread_step debug cfg th w)) = provider_log w @
           (if has_sent (fst (thread_step debug cfg th w)) \<and> \<not> has_sent th
            then [reply_entry cfg ps0 th] else [])
       \<and> (has_sent th \<longrightarrow> has_sent (fst (thread_step debug cfg th w)))"
proof (cases "th_pc th")
  case (At_send msg op)
  with assms(1) have "msg = planned_msg (ps0 (th_sender th)) (th_body th)"
    by (simp add: thread_inv_def Let_def)
  with At_send show ?thesis
    by (simp add: thread_step_def has_sent_def reply_entry_def)
next
  case (At_write op)
  then show ?thesis
    by (auto simp: thread_step_def has_sent_def split: write_op.splits sum.splits)
qed (use assms in \<open>auto simp: thread_step_def has_sent_def finished_def split: prod.splits\<close>)

lemma reply_entry_step:
  "reply_entry cfg ps0 (fst (thread_step debug cfg th w)) = reply_entry cfg ps0 th"
  using thread_step_same_request [of debug cfg th w] by (simp add: reply_entry_def)

lemma log_inv_step:
  assumes "cstep debug cfg s s'" "serial_inv ps0 ts0 s" "log_inv cfg ps0 log0 s"
  shows "log_inv cfg ps0 log0 s'"
  using assms(1)
proof (cases rule: cstep.cases)
  case (run i ts w t' w')
  from assms(2) run have "thread_inv ps0 (patient_state w) (ts ! i)"
    by (auto simp: serial_inv_def)
  note sl = thread_step_log [OF this run(4), of debug cfg]
  have st: "t' = fst (thread_step debug cfg (ts ! i) w)" "w' = snd (thread_step debug cfg (ts ! i) w)"
    using run by simp_all
  have re: "reply_entry cfg ps0 t' = reply_entry cfg ps0 (ts ! i)"
    using st reply_entry_step by metis
  have mu: "mset (map (reply_entry cfg ps0) (filter has_sent (ts[i := t']))) +
              (if has_sent (ts ! i) then {#reply_entry cfg ps0 (ts ! i)#} else {#}) =
            mset (map (reply_entry cfg ps0) (filter has_sent ts)) +
              (if has_sent t' then {#reply_entry cfg ps0 t'#} else {#})"
    by (rule mset_filter_update) (rule run(3))
  from assms(3) run have l0: "mset (provider_log w) = mset log0 + mset (map (reply_entry cfg ps0) (filter has_sent ts))"
    by (simp add: log_inv_def)
  show ?thesis
  proof (cases "has_sent (ts ! i)")
    case True
    with sl st have "has_sent t'" "provider_log w' = provider_log w" by simp_all
    with mu re l0 True run show ?thesis by (simp add: log_inv_def)
  next
    case False
    show ?thesis
    proof (cases "has_sent t'")
      case True
      with sl st False have "provider_log w' = provider_log w @ [reply_entry cfg ps0 (ts ! i)]" by simp
      with mu re l0 True False run show ?thesis by (simp add: log_inv_def add_ac)
    next
      case f2: False
      with sl st False have "provider_log w' = provider_log w" by simp
      with mu l0 f2 False run show ?thesis by (simp add: log_inv_def)
    qed
  qed
qed

lemma log_inv_reach:
  assumes "(cstep debug cfg)\<^sup>*\<^sup>* s s'" "serial_inv ps0 ts0 s" "log_inv cfg ps0 log0 s"
    and "distinct (map th_sender ts0)"
  shows "log_inv cfg ps0 log0 s'"
  using assms(1)
proof (induction rule: rtranclp_induct)
  case base
  then show ?case using assms(3) .
next
  case (step y z)
  have "serial_inv ps0 ts0 y" using serial_inv_reach [OF step.hyps(1) assms(2) assms(4)] .
  from log_inv_step [OF step.hyps(2) this step.IH] show ?case .
qed

lemma dispatch_log_plan:
  "provider_log (snd (app_dispatch debug cfg d (sms_post p b) w)) = provider_log w @
     [(\<lparr>sms_client = make_client cfg, sms_to = p, sms_from = twilio_phone_number cfg,
        sms_body = planned_msg (patient_state w p) b\<rparr>, d)]"
proof (cases "patient_state w p")
  case None
  then show ?thesis by (simp add: planned_msg_def)
next
  case (Some t)
  then show ?thesis
    by (cases t rule: tag_cases)
       (simp_all add: continue_branches planned_msg_def continue_plan_def intake_tags_def)
qed

definition sequential_replies ::
    "config \<Rightarrow> (phone \<rightharpoonup> string) \<Rightarrow> (phone \<times> string \<times> delivery) list \<Rightarrow> (sms \<times> delivery) list" where
  "sequential_replies cfg ps reqs =
     map (\<lambda>(p, b, d). (\<lparr>sms_client = make_client cfg, sms_to = p, sms_from = twilio_phone_number cfg, sms_body = planned_msg (ps p) b\<rparr>, d)) reqs"

lemma serve_distinct_log:
  "distinct (map fst reqs) \<Longrightarrow>
   provider_log (snd (serve debug cfg (request_posts reqs) w)) =
     provider_log w @ sequential_replies cfg (patient_state w) reqs"
proof (induction reqs arbitrary: w)
  case Nil
  then show ?case by (simp add: request_posts_def sequential_replies_def)
next
  case (Cons x reqs)
  obtain p b d where x: "x = (p, b, d)" by (cases x)
  let ?w1 = "snd (app_dispatch debug cfg d (sms_post p b) w)"
  from Cons.prems x have np: "p \<notin> fst ` set reqs" and dr: "distinct (map fst reqs)" by auto
  have same: "\<And>q. q \<noteq> p \<Longrightarrow> patient_state ?w1 q = patient_state w q"
    by (simp add: continue_state)
  have "sequential_replies cfg (patient_state ?w1) reqs = sequential_replies cfg (patient_state w) reqs"
    unfolding sequential_replies_def
  proof (rule map_cong [OF refl])
    fix y assume "y \<in> set reqs"
    with np have "fst y \<noteq> p" by force
    then show "(case y of (p', b', d') \<Rightarrow> (\<lparr>sms_client = make_client cfg, sms_to = p', sms_from = twilio_phone_number cfg,
                  sms_body = planned_msg (patient_state ?w1 p') b'\<rparr>, d')) =
               (case y of (p', b', d') \<Rightarrow> (\<lparr>sms_client = make_client cfg, sms_to = p', sms_from = twilio_phone_number cfg,
                  sms_body = planned_msg (patient_state w p') b'\<rparr>, d'))"
      by (cases y) (simp add: same del: dispatch_sms_post)
  qed
  with Cons.IH [OF dr, of ?w1] x show ?case
    by (simp add: request_posts_def sequential_replies_def dispatch_log_plan del: dispatch_sms_post)
qed

lemma log_inv_init: "log_inv cfg ps0 (provider_log w) (request_threads reqs, w)"
proof -
  have "filter has_sent (request_threads reqs) = []"
    by (induction reqs) (auto simp: request_threads_def new_thread_def has_sent_def)
  then show ?thesis by (simp add: log_inv_def)
qed

lemma finished_has_sent: "finished th \<Longrightarrow> has_sent th"
  by (auto simp: finished_def has_sent_def split: tpc.splits)

lemma complete_run_log:
  assumes "distinct (map fst reqs)"
    and "(cstep debug cfg)\<^sup>*\<^sup>* (request_threads reqs, w) (ts, w')"
    and "all_finished ts"
  shows "mset (provider_log w') = mset (provider_log w) + mset (sequential_replies cfg (patient_state w) reqs)"
proof -
  let ?ps0 = "patient_state w" and ?ts0 = "request_threads reqs"
  have d: "distinct (map th_sender ?ts0)" using assms(1) by (simp add: request_threads_senders)
  have si: "serial_inv ?ps0 ?ts0 (?ts0, w)" by (rule serial_inv_init [OF request_threads_at_check])
  have li: "log_inv cfg ?ps0 (provider_log w) (ts, w')"
    using log_inv_reach [OF assms(2) si log_inv_init d] .
  have sf: "serial_inv ?ps0 ?ts0 (ts, w')" using serial_inv_reach [OF assms(2) si d] .
  then have len: "length ts = length reqs"
    and req: "\<And>j. j < length reqs \<Longrightarrow> same_request (?ts0 ! j) (ts ! j)"
    by (auto simp: serial_inv_def request_threads_def)
  have all: "filter has_sent ts = ts"
    using assms(3) by (auto simp: all_finished_def list_all_iff finished_has_sent)
  have "map (reply_entry cfg ?ps0) ts = map (reply_entry cfg ?ps0) ?ts0"
  proof (rule nth_equalityI)
    show "length (map (reply_entry cfg ?ps0) ts) = length (map (reply_entry cfg ?ps0) ?ts0)"
      using len by (simp add: request_threads_def)
  next
    fix j assume "j < length (map (reply_entry cfg ?ps0) ts)"
    with len have j: "j < length reqs" by simp
    with req [OF j] len show "map (reply_entry cfg ?ps0) ts ! j = map (reply_entry cfg ?ps0) ?ts0 ! j"
      by (simp add: reply_entry_def same_request_def request_threads_def)
  qed
  moreover have "map (reply_entry cfg ?ps0) ?ts0 = sequential_replies cfg ?ps0 reqs"
    by (induction reqs) (auto simp: request_threads_def sequential_replies_def reply_entry_def new_thread_def)
  ultimately show ?thesis using li all by (simp add: log_inv_def)
qed


text \<open>
  C18. With distinct senders in flight, every interleaving that answers all requests
  sends exactly the SMS the sequential server sends, the same replies to the same
  numbers with the same provider answers, only possibly in another order.
\<close>

theorem distinct_senders_same_replies:
  assumes "distinct (map fst reqs)"
    and "(cstep debug cfg)\<^sup>*\<^sup>* (request_threads reqs, w) (ts, w')"
    and "all_finished ts"
  shows "mset (provider_log w') = mset (provider_log (snd (serve debug cfg (request_posts reqs) w)))"
  using complete_run_log [OF assms] serve_distinct_log [OF assms(1), of debug cfg w] by simp

theorem distinct_senders_same_replies_witness:
  "mset (provider_log (snd (run_schedule True demo_config [1, 0, 0, 1, 1, 0, 1, 0]
      (request_threads [(''+15550000001'', ''hi'', Delivered ''SM1''), (''+15550000002'', ''hello'', Failed ''x'')],
       init_world))))
   = mset (provider_log (snd (serve True demo_config
      (request_posts [(''+15550000001'', ''hi'', Delivered ''SM1''), (''+15550000002'', ''hello'', Failed ''x'')])
      init_world)))"
proof -
  let ?reqs = "[(''+15550000001'', ''hi'', Delivered ''SM1''), (''+15550000002'', ''hello'', Failed ''x'')]"
  let ?s = "run_schedule True demo_config [1, 0, 0, 1, 1, 0, 1, 0] (request_threads ?reqs, init_world)"
  have d: "distinct (map fst ?reqs)" by simp
  have r: "(cstep True demo_config)\<^sup>*\<^sup>* (request_threads ?reqs, init_world) (fst ?s, snd ?s)"
    unfolding prod.collapse by (rule run_schedule_reaches)
  have f: "all_finished (fst ?s)"
    by (simp add: request_threads_def all_finished_def new_thread_def thread_step_def finished_def init_world_def)
  from distinct_senders_same_replies [OF d r f] show ?thesis by simp
qed

lemma planned_msg_spec_reply:
  "v = None \<or> v \<in> Some ` set intake_tags \<Longrightarrow> planned_msg v b = spec_reply (Option.bind v tag_stage) b"
  by (auto simp: planned_msg_def continue_plan_def intake_tags_def)

lemma planned_msg_not_sorry:
  assumes "valid_store ps"
  shows "planned_msg (ps p) b \<noteq> sorry_msg"
proof -
  have "ps p = None \<or> ps p \<in> Some ` set intake_tags"
    using assms by (cases "ps p") (auto dest: valid_store_lookup)
  then show ?thesis by (simp add: planned_msg_spec_reply spec_reply_not_sorry)
qed

lemma sequential_replies_no_apology:
  assumes "valid_store ps"
  shows "sorry_msg \<notin> sms_body ` fst ` set (sequential_replies cfg ps reqs)"
  using planned_msg_not_sorry [OF assms] by (auto simp: sequential_replies_def dest: sym)

text \<open>
  C20. Under the per-sender discipline the apology branch stays dead: starting from a
  store of valid tags, an interleaving of requests with distinct senders that answers
  them all sends no apology.
\<close>

theorem distinct_senders_no_apology:
  assumes "distinct (map fst reqs)" "valid_store (patient_state w)"
    and "(cstep debug cfg)\<^sup>*\<^sup>* (request_threads reqs, w) (ts, w')"
    and "all_finished ts"
  shows "count (image_mset (sms_body \<circ> fst) (mset (provider_log w'))) sorry_msg =
         count (image_mset (sms_body \<circ> fst) (mset (provider_log w))) sorry_msg"
proof -
  have "count (image_mset (sms_body \<circ> fst) (mset (sequential_replies cfg (patient_state w) reqs))) sorry_msg = 0"
    using sequential_replies_no_apology [OF assms(2), of cfg reqs]
    by (simp add: count_eq_zero_iff image_image)
  then show ?thesis using complete_run_log [OF assms(1,3,4)] by simp
qed

theorem distinct_senders_no_apology_witness:
  "count (image_mset (sms_body \<circ> fst) (mset (provider_log (snd (run_schedule True demo_config
      [0, 1, 1, 0, 0, 1, 0, 1]
      (request_threads [(''+15550000001'', ''hi'', Delivered ''SM1''), (''+15550000002'', ''hello'', Failed ''x'')],
       init_world)))))) sorry_msg = 0"
proof -
  let ?reqs = "[(''+15550000001'', ''hi'', Delivered ''SM1''), (''+15550000002'', ''hello'', Failed ''x'')]"
  let ?s = "run_schedule True demo_config [0, 1, 1, 0, 0, 1, 0, 1] (request_threads ?reqs, init_world)"
  have d: "distinct (map fst ?reqs)" by simp
  have v: "valid_store (patient_state init_world)" by (simp add: init_world_def)
  have r: "(cstep True demo_config)\<^sup>*\<^sup>* (request_threads ?reqs, init_world) (fst ?s, snd ?s)"
    unfolding prod.collapse by (rule run_schedule_reaches)
  have f: "all_finished (fst ?s)"
    by (simp add: request_threads_def all_finished_def new_thread_def thread_step_def finished_def init_world_def)
  from distinct_senders_no_apology [OF d v r f] show ?thesis by (simp add: init_world_def)
qed

end
