(* ===== verification/Interleaving.thy ===== *)
theory Interleaving
  imports Serializability
begin

text \<open>
  Properties of the threaded server that hold for every interleaving, whatever the
  senders in flight: the shared store and the threads stay well typed (the analogue of
  C3 under concurrency, in the style of a preservation theorem), and every request that
  completes has sent exactly one SMS, also in the racing runs of C14 to C16.
\<close>

subsection \<open>The typed server state\<close>

text \<open>A pending write stores one of the four tags; a thread that finished answered
  200 or the 500 of a \<open>KeyError\<close>.\<close>

fun op_typed :: "write_op \<Rightarrow> bool" where
  "op_typed (Set_tag t) = (t \<in> set intake_tags)"
| "op_typed Delete_entry = True"
| "op_typed No_write = True"

fun pc_typed :: "tpc \<Rightarrow> bool" where
  "pc_typed At_check = True"
| "pc_typed At_read = True"
| "pc_typed (At_send _ op) = op_typed op"
| "pc_typed (At_write op) = op_typed op"
| "pc_typed (Finished s) = (s = 200 \<or> s = 500)"

definition server_typed :: "server \<Rightarrow> bool" where
  "server_typed s = (valid_store (patient_state (snd s)) \<and> list_all (pc_typed \<circ> th_pc) (fst s))"

lemma continue_plan_typed: "op_typed (snd (continue_plan v b))"
  by (simp add: continue_plan_def intake_tags_def)

lemma thread_step_typed:
  assumes "pc_typed (th_pc th)" "valid_store (patient_state w)"
  shows "pc_typed (th_pc (fst (thread_step debug cfg th w)))
         \<and> valid_store (patient_state (snd (thread_step debug cfg th w)))"
proof (cases "th_pc th")
  case At_read
  with assms show ?thesis
    using continue_plan_typed [of "patient_state w (th_sender th)" "th_body th"]
    by (simp add: thread_step_def split_beta)
next
  case (At_write op)
  with assms show ?thesis
    by (cases op) (auto simp: thread_step_def flask_error_status_def py_del_def
        split: sum.splits py_exc.splits if_splits)
qed (use assms in \<open>simp_all add: thread_step_def intake_tags_def\<close>)

text \<open>One step of the server: thread \<open>i\<close> moves and the others stay.\<close>

lemma cstep_update:
  assumes "cstep debug cfg s s'"
  obtains i where "i < length (fst s)" "\<not> finished (fst s ! i)"
    "s' = ((fst s)[i := fst (thread_step debug cfg (fst s ! i) (snd s))],
           snd (thread_step debug cfg (fst s ! i) (snd s)))"
  using assms by (cases rule: cstep.cases) (metis fst_conv snd_conv)

lemma cstep_typed:
  assumes "cstep debug cfg s s'" "server_typed s"
  shows "server_typed s'"
proof -
  obtain i where i: "i < length (fst s)"
    and s': "s' = ((fst s)[i := fst (thread_step debug cfg (fst s ! i) (snd s))],
                   snd (thread_step debug cfg (fst s ! i) (snd s)))"
    using assms(1) by (rule cstep_update)
  from assms(2) i have "pc_typed (th_pc (fst s ! i))" "valid_store (patient_state (snd s))"
    by (auto simp: server_typed_def list_all_length)
  then have "pc_typed (th_pc (fst (thread_step debug cfg (fst s ! i) (snd s))))"
    "valid_store (patient_state (snd (thread_step debug cfg (fst s ! i) (snd s))))"
    using thread_step_typed by blast+
  with assms(2) i s' show ?thesis
    by (auto simp: server_typed_def list_all_length nth_list_update)
qed

lemma rtranclp_cstep_typed:
  "(cstep debug cfg)\<^sup>*\<^sup>* s s' \<Longrightarrow> server_typed s \<Longrightarrow> server_typed s'"
  by (induction rule: rtranclp_induct) (auto intro: cstep_typed)

lemma request_threads_typed:
  "valid_store (patient_state w) \<Longrightarrow> server_typed (request_threads reqs, w)"
  by (simp add: server_typed_def request_threads_def list_all_iff new_thread_def split_beta)

subsection \<open>The SMS of a run\<close>

text \<open>A thread's request, and the recipient and provider answer of a logged SMS.\<close>

definition thread_req :: "thread \<Rightarrow> phone \<times> string \<times> delivery" where
  "thread_req th = (th_sender th, th_body th, th_outcome th)"

definition sent_to :: "sms \<times> delivery \<Rightarrow> phone \<times> delivery" where
  "sent_to e = (sms_to (fst e), snd e)"

definition req_dest :: "phone \<times> string \<times> delivery \<Rightarrow> phone \<times> delivery" where
  "req_dest r = (fst r, snd (snd r))"

lemma thread_step_req [simp]: "thread_req (fst (thread_step debug cfg th w)) = thread_req th"
  using thread_step_same_request [of debug cfg th w] by (simp add: thread_req_def)

lemma cstep_requests: "cstep debug cfg s s' \<Longrightarrow> map thread_req (fst s') = map thread_req (fst s)"
  by (elim cstep_update) (simp add: map_update, metis list_update_id nth_map)

lemma rtranclp_cstep_requests:
  "(cstep debug cfg)\<^sup>*\<^sup>* s s' \<Longrightarrow> map thread_req (fst s') = map thread_req (fst s)"
  by (induction rule: rtranclp_induct) (auto dest: cstep_requests)

lemma request_threads_req [simp]: "map thread_req (request_threads reqs) = reqs"
  by (induction reqs) (auto simp: request_threads_def thread_req_def new_thread_def)

text \<open>A step appends at most one SMS, to the thread's sender with the thread's answer,
  exactly when the thread passes its Twilio call.\<close>

lemma thread_step_sent:
  "\<exists>new. provider_log (snd (thread_step debug cfg th w)) = provider_log w @ new
     \<and> map sent_to new = (if has_sent (fst (thread_step debug cfg th w)) \<and> \<not> has_sent th
                          then [req_dest (thread_req th)] else [])
     \<and> (has_sent th \<longrightarrow> has_sent (fst (thread_step debug cfg th w)))"
  by (auto simp: thread_step_def has_sent_def sent_to_def req_dest_def thread_req_def
      split: tpc.splits write_op.splits sum.splits prod.splits)

definition sent_inv :: "(sms \<times> delivery) list \<Rightarrow> server \<Rightarrow> bool" where
  "sent_inv log0 s =
     (\<exists>new. provider_log (snd s) = log0 @ new
        \<and> mset (map sent_to new) = mset (map (req_dest \<circ> thread_req) (filter has_sent (fst s))))"

lemma cstep_sent_inv:
  assumes "cstep debug cfg s s'" "sent_inv log0 s"
  shows "sent_inv log0 s'"
proof -
  obtain i where i: "i < length (fst s)"
    and s': "s' = ((fst s)[i := fst (thread_step debug cfg (fst s ! i) (snd s))],
                   snd (thread_step debug cfg (fst s ! i) (snd s)))"
    using assms(1) by (rule cstep_update)
  let ?th = "fst s ! i" and ?t = "fst (thread_step debug cfg (fst s ! i) (snd s))"
  obtain new where new: "provider_log (snd s) = log0 @ new"
    and m: "mset (map sent_to new) = mset (map (req_dest \<circ> thread_req) (filter has_sent (fst s)))"
    using assms(2) by (auto simp: sent_inv_def)
  obtain new1 where n1: "provider_log (snd (thread_step debug cfg ?th (snd s))) = provider_log (snd s) @ new1"
    and d1: "map sent_to new1 = (if has_sent ?t \<and> \<not> has_sent ?th then [req_dest (thread_req ?th)] else [])"
    and h1: "has_sent ?th \<longrightarrow> has_sent ?t"
    using thread_step_sent by blast
  have u: "mset (map (req_dest \<circ> thread_req) (filter has_sent ((fst s)[i := ?t])))
             + (if has_sent ?th then {#(req_dest \<circ> thread_req) ?th#} else {#})
           = mset (map (req_dest \<circ> thread_req) (filter has_sent (fst s)))
             + (if has_sent ?t then {#(req_dest \<circ> thread_req) ?t#} else {#})"
    by (rule mset_filter_update [OF i])
  have "mset (map sent_to (new @ new1)) =
        mset (map (req_dest \<circ> thread_req) (filter has_sent ((fst s)[i := ?t])))"
    using u m d1 h1 by (auto split: if_splits)
  with new n1 s' show ?thesis by (auto simp: sent_inv_def)
qed

lemma rtranclp_cstep_sent_inv:
  "(cstep debug cfg)\<^sup>*\<^sup>* s s' \<Longrightarrow> sent_inv log0 s \<Longrightarrow> sent_inv log0 s'"
  by (induction rule: rtranclp_induct) (auto intro: cstep_sent_inv)

lemma request_threads_sent_inv: "sent_inv (provider_log w) (request_threads reqs, w)"
  by (simp add: sent_inv_def request_threads_def has_sent_def new_thread_def filter_empty_conv split_beta)
subsection \<open>Properties of every interleaving\<close>

text \<open>
  C21. Type preservation of the threaded server: from a store of valid tags, every
  interleaving of requests, however their senders race, keeps only the four tags in
  the store and only valid tags in the pending writes, and every request that finished
  was answered 200 or 500.
\<close>

theorem interleaving_typed:
  assumes "valid_store (patient_state w)"
    and "(cstep debug cfg)\<^sup>*\<^sup>* (request_threads reqs, w) (ts, w')"
  shows "valid_store (patient_state w') \<and> list_all (pc_typed \<circ> th_pc) ts"
  using rtranclp_cstep_typed [OF assms(2) request_threads_typed [OF assms(1)]]
  by (simp add: server_typed_def)

theorem interleaving_typed_witness:
  "valid_store (patient_state (snd (run_schedule True demo_config [1, 0, 0, 0, 0, 1, 1, 1]
      (request_threads [(demo_sender, ''knee pain'', Delivered ''SM1''), (demo_sender, ''thanks'', Delivered ''SM2'')],
       racing_world waiting_for_complaint))))
   \<and> list_all (pc_typed \<circ> th_pc) (fst (run_schedule True demo_config [1, 0, 0, 0, 0, 1, 1, 1]
      (request_threads [(demo_sender, ''knee pain'', Delivered ''SM1''), (demo_sender, ''thanks'', Delivered ''SM2'')],
       racing_world waiting_for_complaint)))"
proof -
  let ?reqs = "[(demo_sender, ''knee pain'', Delivered ''SM1''), (demo_sender, ''thanks'', Delivered ''SM2'')]"
  let ?s = "run_schedule True demo_config [1, 0, 0, 0, 0, 1, 1, 1] (request_threads ?reqs, racing_world waiting_for_complaint)"
  have v: "valid_store (patient_state (racing_world waiting_for_complaint))"
    by (simp add: racing_world_def init_world_def valid_store_def intake_tags_def)
  have r: "(cstep True demo_config)\<^sup>*\<^sup>* (request_threads ?reqs, racing_world waiting_for_complaint) (fst ?s, snd ?s)"
    unfolding prod.collapse by (rule run_schedule_reaches)
  from interleaving_typed [OF v r] show ?thesis .
qed

text \<open>
  C22. Every complete interleaving, whatever the senders and however they race, only
  appends to the provider log, and what it appends is one SMS per request, sent to the
  request's sender and carrying the provider answer of that request: no request is
  answered twice or left unanswered, even in the runs of C14 to C16.
\<close>

theorem one_sms_per_request:
  assumes "(cstep debug cfg)\<^sup>*\<^sup>* (request_threads reqs, w) (ts, w')"
    and "all_finished ts"
  shows "\<exists>new. provider_log w' = provider_log w @ new
           \<and> mset (map sent_to new) = mset (map req_dest reqs)"
proof -
  have "sent_inv (provider_log w) (ts, w')"
    using rtranclp_cstep_sent_inv [OF assms(1) request_threads_sent_inv] .
  moreover have "filter has_sent ts = ts"
    using assms(2) by (simp add: all_finished_def list_all_iff finished_has_sent)
  moreover have "map thread_req ts = reqs"
    using rtranclp_cstep_requests [OF assms(1)] by simp
  ultimately show ?thesis by (auto simp: sent_inv_def simp flip: map_map)
qed

theorem one_sms_per_request_witness:
  "\<exists>new. provider_log (snd (run_schedule True demo_config [0, 1, 0, 1, 0, 1, 0, 1]
            (request_threads [(demo_sender, ''knee pain'', Delivered ''SM1''), (demo_sender, ''and fever'', Delivered ''SM2'')],
             racing_world waiting_for_complaint))) = provider_log (racing_world waiting_for_complaint) @ new
     \<and> mset (map sent_to new) = mset (map req_dest [(demo_sender, ''knee pain'', Delivered ''SM1''), (demo_sender, ''and fever'', Delivered ''SM2'')])"
proof -
  let ?reqs = "[(demo_sender, ''knee pain'', Delivered ''SM1''), (demo_sender, ''and fever'', Delivered ''SM2'')]"
  let ?s = "run_schedule True demo_config [0, 1, 0, 1, 0, 1, 0, 1] (request_threads ?reqs, racing_world waiting_for_complaint)"
  have r: "(cstep True demo_config)\<^sup>*\<^sup>* (request_threads ?reqs, racing_world waiting_for_complaint) (fst ?s, snd ?s)"
    unfolding prod.collapse by (rule run_schedule_reaches)
  have f: "all_finished (fst ?s)"
    by (simp add: schedule_simps request_threads_def all_finished_def)
  from one_sms_per_request [OF r f] show ?thesis .
qed

end
