(* ===== verification/Sender_Order.thy ===== *)
theory Sender_Order
  imports Interleaving
begin

text \<open>
  Serializability when the requests of one sender do not overlap in time. The threaded
  server may run several requests of one sender, but in the runs where each request of a
  sender starts (takes its membership test) only after every earlier request of that
  sender has finished, which is what a per-sender FIFO lock would enforce, the server
  behaves like the sequential one. \<open>fifo_step\<close> is the restriction of \<open>cstep\<close> to those
  runs (\<open>fifo_step_cstep\<close>: each of its steps is a step of the real server), and
  \<open>run_fifo\<close> executes a schedule under it. The proof is an invariant relative to the
  starting store: at most one request per sender is active (started and not finished),
  the active one satisfies \<open>thread_inv\<close> relative to the value its sender's entry had
  after the finished requests of that sender (\<open>base_val\<close>), and a sender with no
  active request holds exactly that value.
\<close>

subsection \<open>Runs that keep each sender's requests in order\<close>

definition sender_ready :: "thread list \<Rightarrow> nat \<Rightarrow> bool" where
  "sender_ready ts i =
     list_all (\<lambda>l. th_sender (ts ! l) = th_sender (ts ! i) \<longrightarrow> finished (ts ! l)) [0..<i]"

inductive fifo_step :: "bool \<Rightarrow> config \<Rightarrow> server \<Rightarrow> server \<Rightarrow> bool" for debug cfg where
  run: "i < length ts \<Longrightarrow> \<not> finished (ts ! i) \<Longrightarrow> (th_pc (ts ! i) = At_check \<longrightarrow> sender_ready ts i) \<Longrightarrow>
        thread_step debug cfg (ts ! i) w = (t', w') \<Longrightarrow> fifo_step debug cfg (ts, w) (ts[i := t'], w')"

definition fifo_ready :: "thread list \<Rightarrow> nat \<Rightarrow> bool" where
  "fifo_ready ts i = (i < length ts \<and> \<not> finished (ts ! i) \<and> (th_pc (ts ! i) = At_check \<longrightarrow> sender_ready ts i))"

fun run_fifo :: "bool \<Rightarrow> config \<Rightarrow> nat list \<Rightarrow> server \<Rightarrow> server" where
  "run_fifo debug cfg [] s = s"
| "run_fifo debug cfg (i # is) (ts, w) =
     (if fifo_ready ts i
      then (case thread_step debug cfg (ts ! i) w of
              (t', w') \<Rightarrow> run_fifo debug cfg is (ts[i := t'], w'))
      else run_fifo debug cfg is (ts, w))"

lemma sender_ready_iff:
  "sender_ready ts i \<longleftrightarrow> (\<forall>l < i. th_sender (ts ! l) = th_sender (ts ! i) \<longrightarrow> finished (ts ! l))"
  by (auto simp: sender_ready_def list_all_iff)

lemma fifo_step_cstep: "fifo_step debug cfg s s' \<Longrightarrow> cstep debug cfg s s'"
  by (induction rule: fifo_step.induct) (rule cstep.run)

lemma rtranclp_fifo_cstep: "(fifo_step debug cfg)\<^sup>*\<^sup>* s s' \<Longrightarrow> (cstep debug cfg)\<^sup>*\<^sup>* s s'"
  by (induction rule: rtranclp_induct) (auto intro: rtranclp.rtrancl_into_rtrancl fifo_step_cstep)

lemma run_fifo_reaches: "(fifo_step debug cfg)\<^sup>*\<^sup>* s (run_fifo debug cfg is s)"
proof (induction "is" arbitrary: s)
  case Nil
  then show ?case by simp
next
  case (Cons i "is")
  obtain ts w where s: "s = (ts, w)" by (cases s)
  show ?case
  proof (cases "fifo_ready ts i")
    case True
    obtain t' w' where st: "thread_step debug cfg (ts ! i) w = (t', w')"
      by (cases "thread_step debug cfg (ts ! i) w")
    from True st have "fifo_step debug cfg (ts, w) (ts[i := t'], w')"
      by (auto simp: fifo_ready_def intro: fifo_step.run)
    with Cons.IH [of "(ts[i := t'], w')"] True st s show ?thesis
      by (simp add: converse_rtranclp_into_rtranclp)
  next
    case False
    with Cons.IH [of s] s show ?thesis by auto
  qed
qed

subsection \<open>The invariant\<close>

definition active :: "thread \<Rightarrow> bool" where
  "active th = (th_pc th \<noteq> At_check \<and> \<not> finished th)"

definition nfin :: "thread list \<Rightarrow> phone \<Rightarrow> nat" where
  "nfin ts k = length (filter (\<lambda>th. th_sender th = k \<and> finished th) ts)"

definition base_val :: "(phone \<rightharpoonup> string) \<Rightarrow> thread list \<Rightarrow> phone \<Rightarrow> string option" where
  "base_val ps0 ts k = (final_val ^^ nfin ts k) (ps0 k)"

definition fifo_inv :: "(phone \<rightharpoonup> string) \<Rightarrow> server \<Rightarrow> bool" where
  "fifo_inv ps0 s =
     ((\<forall>j < length (fst s). th_pc (fst s ! j) \<noteq> At_check \<longrightarrow> sender_ready (fst s) j)
      \<and> (\<forall>j < length (fst s). finished (fst s ! j) \<longrightarrow> th_pc (fst s ! j) = Finished 200)
      \<and> (\<forall>j < length (fst s). active (fst s ! j) \<longrightarrow>
           thread_inv (\<lambda>_. base_val ps0 (fst s) (th_sender (fst s ! j))) (patient_state (snd s)) (fst s ! j))
      \<and> (\<forall>k. (\<forall>j < length (fst s). th_sender (fst s ! j) = k \<longrightarrow> \<not> active (fst s ! j)) \<longrightarrow>
           patient_state (snd s) k = base_val ps0 (fst s) k))"

lemma length_filter_update:
  "i < length xs \<Longrightarrow>
   length (filter P (xs[i := x])) + (if P (xs ! i) then 1 else 0) =
   length (filter P xs) + (if P x then 1 else 0)"
proof (induction xs arbitrary: i)
  case Nil
  then show ?case by simp
next
  case (Cons y xs)
  show ?case
  proof (cases i)
    case 0
    then show ?thesis by simp
  next
    case (Suc n)
    with Cons.prems Cons.IH [of n] show ?thesis by simp
  qed
qed

lemma nfin_update:
  "i < length ts \<Longrightarrow>
   nfin (ts[i := t]) k + (if th_sender (ts ! i) = k \<and> finished (ts ! i) then 1 else 0) =
   nfin ts k + (if th_sender t = k \<and> finished t then 1 else 0)"
  using length_filter_update [of i ts "\<lambda>th. th_sender th = k \<and> finished th" t]
  by (simp add: nfin_def)

lemma active_unique:
  assumes "\<forall>j < length ts. th_pc (ts ! j) \<noteq> At_check \<longrightarrow> sender_ready ts j"
    and "j1 < length ts" "j2 < length ts" "th_sender (ts ! j1) = th_sender (ts ! j2)"
    and "active (ts ! j1)" "active (ts ! j2)"
  shows "j1 = j2"
proof (rule ccontr)
  assume "j1 \<noteq> j2"
  then consider "j1 < j2" | "j2 < j1" by linarith
  then show False
  proof cases
    case 1
    with assms have "finished (ts ! j1)" by (auto simp: sender_ready_iff active_def)
    with assms(5) show False by (simp add: active_def)
  next
    case 2
    with assms have "finished (ts ! j2)" by (auto simp: sender_ready_iff active_def)
    with assms(6) show False by (simp add: active_def)
  qed
qed

lemma thread_step_not_check: "th_pc (fst (thread_step debug cfg th w)) \<noteq> At_check"
  by (auto simp: thread_step_def split: tpc.splits write_op.splits sum.splits prod.splits)

lemma sender_ready_update:
  assumes "sender_ready ts j" "i < length ts" "th_sender t = th_sender (ts ! i)" "\<not> finished (ts ! i)"
  shows "sender_ready (ts[i := t]) j"
  unfolding sender_ready_iff
proof (intro allI impI)
  fix l assume l: "l < j" and eq: "th_sender (ts[i := t] ! l) = th_sender (ts[i := t] ! j)"
  show "finished (ts[i := t] ! l)"
  proof (cases "l = i")
    case True
    with l have "j \<noteq> i" by simp
    with True eq assms(2,3) have "th_sender (ts ! i) = th_sender (ts ! j)" by simp
    with assms(1) True l have "finished (ts ! i)" by (simp add: sender_ready_iff)
    with assms(4) show ?thesis ..
  next
    case False
    with eq assms(2,3) have "th_sender (ts ! l) = th_sender (ts ! j)"
      by (cases "j = i") simp_all
    with assms(1) l False show ?thesis by (simp add: sender_ready_iff)
  qed
qed

lemma others_inactive:
  assumes inv: "fifo_inv ps0 (ts, w)"
    and i: "i < length ts" "\<not> finished (ts ! i)"
    and ready: "th_pc (ts ! i) = At_check \<longrightarrow> sender_ready ts i"
    and j: "j < length ts" "j \<noteq> i" "th_sender (ts ! j) = th_sender (ts ! i)"
  shows "\<not> active (ts ! j)"
proof
  assume aj: "active (ts ! j)"
  show False
  proof (cases "th_pc (ts ! i) = At_check")
    case True
    consider "j < i" | "i < j" using j(2) by linarith
    then show False
    proof cases
      case 1
      with True ready j aj show False by (auto simp: sender_ready_iff active_def)
    next
      case 2
      from inv j aj have "sender_ready ts j" by (auto simp: fifo_inv_def active_def)
      with 2 j i(2) show False by (auto simp: sender_ready_iff)
    qed
  next
    case False
    with i have "active (ts ! i)" by (simp add: active_def)
    with inv i j aj have "j = i" using active_unique [of ts j i] by (auto simp: fifo_inv_def)
    with j(2) show False ..
  qed
qed

lemma fifo_thread_inv_before:
  assumes inv: "fifo_inv ps0 (ts, w)"
    and i: "i < length ts" "\<not> finished (ts ! i)"
    and ready: "th_pc (ts ! i) = At_check \<longrightarrow> sender_ready ts i"
  shows "thread_inv (\<lambda>_. base_val ps0 ts (th_sender (ts ! i))) (patient_state w) (ts ! i)"
proof (cases "th_pc (ts ! i) = At_check")
  case True
  have "\<forall>j < length ts. th_sender (ts ! j) = th_sender (ts ! i) \<longrightarrow> \<not> active (ts ! j)"
    using others_inactive [OF inv i ready] True by (metis active_def)
  with inv have "patient_state w (th_sender (ts ! i)) = base_val ps0 ts (th_sender (ts ! i))"
    by (simp add: fifo_inv_def)
  with True show ?thesis by (simp add: thread_inv_def)
next
  case False
  with i inv show ?thesis by (simp add: fifo_inv_def active_def)
qed

lemma fifo_inv_step:
  assumes "fifo_step debug cfg s s'" "fifo_inv ps0 s"
  shows "fifo_inv ps0 s'"
  using assms(1)
proof (cases rule: fifo_step.cases)
  case (run i ts w t' w')
  let ?k = "th_sender (ts ! i)" and ?ts' = "ts[i := t']"
  have inv: "fifo_inv ps0 (ts, w)" using assms(2) run by simp
  have i: "i < length ts" "\<not> finished (ts ! i)" using run by simp_all
  have ready: "th_pc (ts ! i) = At_check \<longrightarrow> sender_ready ts i" using run by simp
  have st: "t' = fst (thread_step debug cfg (ts ! i) w)" "w' = snd (thread_step debug cfg (ts ! i) w)"
    using run by simp_all
  have snd_t: "th_sender t' = ?k" using thread_step_same_request [of debug cfg "ts ! i" w] st by simp
  have nc: "th_pc t' \<noteq> At_check" using thread_step_not_check st by simp
  have frame: "\<And>k'. k' \<noteq> ?k \<Longrightarrow> patient_state w' k' = patient_state w k'"
    using thread_step_frame st by metis
  have bv: "base_val ps0 ?ts' k' = base_val ps0 ts k'" if "k' \<noteq> ?k" for k'
  proof -
    have "nfin ?ts' k' = nfin ts k'" using nfin_update [OF i(1), of t' k'] snd_t that by simp
    then show ?thesis by (simp add: base_val_def)
  qed
  have nk: "nfin ?ts' ?k = nfin ts ?k + (if finished t' then 1 else 0)"
    using nfin_update [OF i(1), of t' ?k] snd_t i(2) by simp
  have ti: "thread_inv (\<lambda>_. base_val ps0 ts ?k) (patient_state w') t'"
    using thread_step_inv [OF fifo_thread_inv_before [OF inv i ready] i(2)] st by simp
  have oth: "\<And>j. j < length ts \<Longrightarrow> j \<noteq> i \<Longrightarrow> th_sender (ts ! j) = ?k \<Longrightarrow> \<not> active (ts ! j)"
    using others_inactive [OF inv i ready] by blast
  have A: "\<forall>j < length ?ts'. th_pc (?ts' ! j) \<noteq> At_check \<longrightarrow> sender_ready ?ts' j"
  proof (intro allI impI)
    fix j assume j: "j < length ?ts'" and pc: "th_pc (?ts' ! j) \<noteq> At_check"
    have "sender_ready ts j"
    proof (cases "j = i")
      case True
      with ready inv i show ?thesis by (auto simp: fifo_inv_def)
    next
      case False
      with j pc inv show ?thesis by (auto simp: fifo_inv_def)
    qed
    then show "sender_ready ?ts' j" using sender_ready_update i snd_t by blast
  qed
  have B: "\<forall>j < length ?ts'. finished (?ts' ! j) \<longrightarrow> th_pc (?ts' ! j) = Finished 200"
  proof (intro allI impI)
    fix j assume j: "j < length ?ts'" and f: "finished (?ts' ! j)"
    show "th_pc (?ts' ! j) = Finished 200"
    proof (cases "j = i")
      case True
      with f i have "finished t'" by simp
      then obtain c where "th_pc t' = Finished c" by (cases "th_pc t'") (simp_all add: finished_def)
      with ti True i show ?thesis by (simp add: thread_inv_def)
    next
      case False
      with j f inv show ?thesis by (auto simp: fifo_inv_def)
    qed
  qed
  have C: "\<forall>j < length ?ts'. active (?ts' ! j) \<longrightarrow>
             thread_inv (\<lambda>_. base_val ps0 ?ts' (th_sender (?ts' ! j))) (patient_state w') (?ts' ! j)"
  proof (intro allI impI)
    fix j assume j: "j < length ?ts'" and a: "active (?ts' ! j)"
    show "thread_inv (\<lambda>_. base_val ps0 ?ts' (th_sender (?ts' ! j))) (patient_state w') (?ts' ! j)"
    proof (cases "j = i")
      case True
      with a i have "\<not> finished t'" by (simp add: active_def)
      with nk have "base_val ps0 ?ts' ?k = base_val ps0 ts ?k" by (simp add: base_val_def)
      with True i ti snd_t show ?thesis by simp
    next
      case False
      with j a have aj: "active (ts ! j)" by simp
      with oth j False have ne: "th_sender (ts ! j) \<noteq> ?k" by auto
      from inv j aj have "thread_inv (\<lambda>_. base_val ps0 ts (th_sender (ts ! j))) (patient_state w) (ts ! j)"
        by (simp add: fifo_inv_def)
      with ne frame bv False show ?thesis
        using thread_inv_frame [of "patient_state w'" "ts ! j" "patient_state w"] by simp
    qed
  qed
  have D: "\<forall>k'. (\<forall>j < length ?ts'. th_sender (?ts' ! j) = k' \<longrightarrow> \<not> active (?ts' ! j)) \<longrightarrow>
             patient_state w' k' = base_val ps0 ?ts' k'"
  proof (intro allI impI)
    fix k' assume na: "\<forall>j < length ?ts'. th_sender (?ts' ! j) = k' \<longrightarrow> \<not> active (?ts' ! j)"
    show "patient_state w' k' = base_val ps0 ?ts' k'"
    proof (cases "k' = ?k")
      case False
      have "\<forall>j < length ts. th_sender (ts ! j) = k' \<longrightarrow> \<not> active (ts ! j)"
      proof (intro allI impI)
        fix j assume "j < length ts" "th_sender (ts ! j) = k'"
        with na False snd_t show "\<not> active (ts ! j)" by (cases "j = i") auto
      qed
      with inv have "patient_state w k' = base_val ps0 ts k'" by (simp add: fifo_inv_def)
      with False frame bv show ?thesis by simp
    next
      case True
      with na i snd_t have "\<not> active t'" by (metis length_list_update nth_list_update_eq)
      with nc have fin: "finished t'" by (simp add: active_def)
      then obtain c where "th_pc t' = Finished c" by (cases "th_pc t'") (simp_all add: finished_def)
      with ti snd_t have "patient_state w' ?k = final_val (base_val ps0 ts ?k)"
        by (simp add: thread_inv_def)
      moreover have "base_val ps0 ?ts' ?k = final_val (base_val ps0 ts ?k)"
        using nk fin by (simp add: base_val_def)
      ultimately show ?thesis using True by simp
    qed
  qed
  show ?thesis using A B C D run by (simp add: fifo_inv_def)
qed

lemma fifo_inv_reach:
  "(fifo_step debug cfg)\<^sup>*\<^sup>* s s' \<Longrightarrow> fifo_inv ps0 s \<Longrightarrow> fifo_inv ps0 s'"
  by (induction rule: rtranclp_induct) (auto intro: fifo_inv_step)

lemma fifo_inv_init: "fifo_inv (patient_state w) (request_threads reqs, w)"
proof -
  let ?ts = "request_threads reqs"
  have pc: "\<And>j. j < length ?ts \<Longrightarrow> th_pc (?ts ! j) = At_check"
    using request_threads_at_check [of reqs] by (simp add: list_all_length)
  then have "\<not> finished th" if "th \<in> set ?ts" for th
    using that by (auto simp: in_set_conv_nth finished_def)
  then have "nfin ?ts k = 0" for k by (simp add: nfin_def filter_empty_conv)
  with pc show ?thesis by (simp add: fifo_inv_def base_val_def active_def finished_def)
qed

lemma fifo_inv_final:
  assumes "fifo_inv ps0 (ts, w)" "all_finished ts"
  shows "patient_state w k = (final_val ^^ count_list (map th_sender ts) k) (ps0 k)"
    and "map th_pc ts = replicate (length ts) (Finished 200)"
proof -
  have fin: "\<And>j. j < length ts \<Longrightarrow> finished (ts ! j)"
    using assms(2) by (simp add: all_finished_def list_all_length)
  then have "\<forall>j < length ts. th_sender (ts ! j) = k \<longrightarrow> \<not> active (ts ! j)"
    by (simp add: active_def)
  with assms(1) have "patient_state w k = base_val ps0 ts k" by (simp add: fifo_inv_def)
  moreover have "nfin ts k = count_list (map th_sender ts) k"
    using assms(2) by (induction ts) (auto simp: nfin_def all_finished_def)
  ultimately show "patient_state w k = (final_val ^^ count_list (map th_sender ts) k) (ps0 k)"
    by (simp add: base_val_def)
  from assms(1) fin show "map th_pc ts = replicate (length ts) (Finished 200)"
    by (simp add: fifo_inv_def list_eq_iff_nth_eq)
qed

lemma dispatch_store_final:
  "patient_state (snd (app_dispatch debug cfg d (sms_post p b) w)) =
     (patient_state w)(p := final_val (patient_state w p))"
  by (simp add: final_val_def continue_state)

lemma serve_store_count:
  "patient_state (snd (serve debug cfg (request_posts reqs) w)) k =
     (final_val ^^ count_list (map fst reqs) k) (patient_state w k)"
proof (induction reqs arbitrary: w)
  case Nil
  then show ?case by (simp add: request_posts_def)
next
  case (Cons x reqs)
  obtain p b d where x: "x = (p, b, d)" by (cases x)
  from Cons.IH [of "snd (app_dispatch debug cfg d (sms_post p b) w)"] x show ?case
    by (simp add: request_posts_def dispatch_store_final funpow_swap1 del: dispatch_sms_post)
qed

lemma fifo_senders:
  assumes "(fifo_step debug cfg)\<^sup>*\<^sup>* (request_threads reqs, w) (ts, w')"
  shows "map th_sender ts = map fst reqs"
proof -
  have "map thread_req ts = reqs"
    using rtranclp_cstep_requests [OF rtranclp_fifo_cstep [OF assms]] by simp
  then have "map fst (map thread_req ts) = map fst reqs" by simp
  then show ?thesis by (simp add: thread_req_def comp_def)
qed

subsection \<open>The replies of a run that keeps each sender's requests in order\<close>

text \<open>The replies of the sequential server: each request is answered from the store
  left by the requests before it.\<close>

fun seq_log :: "config \<Rightarrow> (phone \<rightharpoonup> string) \<Rightarrow> (phone \<times> string \<times> delivery) list \<Rightarrow> (sms \<times> delivery) list" where
  "seq_log cfg ps [] = []"
| "seq_log cfg ps ((p, b, d) # rs) =
     (\<lparr>sms_client = make_client cfg, sms_to = p, sms_from = twilio_phone_number cfg, sms_body = planned_msg (ps p) b\<rparr>, d)
       # seq_log cfg (ps(p := final_val (ps p))) rs"

definition rank :: "phone list \<Rightarrow> nat \<Rightarrow> nat" where
  "rank ks j = count_list (take j ks) (ks ! j)"

lemma serve_log:
  "provider_log (snd (serve debug cfg (request_posts reqs) w)) =
     provider_log w @ seq_log cfg (patient_state w) reqs"
proof (induction reqs arbitrary: w)
  case Nil
  then show ?case by (simp add: request_posts_def)
next
  case (Cons x reqs)
  obtain p b d where x: "x = (p, b, d)" by (cases x)
  from Cons.IH [of "snd (app_dispatch debug cfg d (sms_post p b) w)"] x show ?case
    by (simp add: request_posts_def dispatch_store_final dispatch_log_plan fun_upd_def del: dispatch_sms_post)
qed

lemma seq_log_length [simp]: "length (seq_log cfg ps reqs) = length reqs"
  by (induction cfg ps reqs rule: seq_log.induct) (simp_all add: fun_upd_def)

lemma seq_log_nth:
  "j < length reqs \<Longrightarrow> seq_log cfg ps reqs ! j =
     (\<lparr>sms_client = make_client cfg, sms_to = fst (reqs ! j), sms_from = twilio_phone_number cfg,
       sms_body = planned_msg ((final_val ^^ rank (map fst reqs) j) (ps (fst (reqs ! j)))) (fst (snd (reqs ! j)))\<rparr>,
      snd (snd (reqs ! j)))"
proof (induction cfg ps reqs arbitrary: j rule: seq_log.induct)
  case (1 cfg ps)
  then show ?case by simp
next
  case (2 cfg ps p b d rs)
  show ?case
  proof (cases j)
    case 0
    then show ?thesis by (simp add: rank_def)
  next
    case (Suc n)
    with "2.prems" "2.IH" [of n] show ?thesis by (simp add: rank_def funpow_swap1 fun_upd_def)
  qed
qed

lemma count_list_map: "count_list (map f xs) y = length (filter (\<lambda>x. f x = y) xs)"
  by (induction xs) auto

lemma active_rank:
  assumes inv: "fifo_inv ps0 (ts, w)" and j: "j < length ts" and a: "active (ts ! j)"
  shows "nfin ts (th_sender (ts ! j)) = rank (map th_sender ts) j"
proof -
  let ?k = "th_sender (ts ! j)" and ?P = "\<lambda>th. th_sender th = th_sender (ts ! j) \<and> finished th"
  have ready: "\<And>l. l < length ts \<Longrightarrow> th_pc (ts ! l) \<noteq> At_check \<Longrightarrow> sender_ready ts l"
    using inv by (simp add: fifo_inv_def)
  have "sender_ready ts j" using ready [OF j] a by (simp add: active_def)
  then have pre: "filter ?P (take j ts) = filter (\<lambda>th. th_sender th = ?k) (take j ts)"
    by (auto intro!: filter_cong simp: in_set_conv_nth sender_ready_iff)
  have post: "filter ?P (drop (Suc j) ts) = []"
  proof (rule filter_False, clarify)
    fix th assume th: "th \<in> set (drop (Suc j) ts)" and sk: "th_sender th = ?k" and f: "finished th"
    from th obtain m where "m < length (drop (Suc j) ts)" "th = drop (Suc j) ts ! m"
      by (auto simp: in_set_conv_nth)
    then have m: "Suc j + m < length ts" "th = ts ! (Suc j + m)" by simp_all
    with f have "th_pc (ts ! (Suc j + m)) \<noteq> At_check" by (auto simp: finished_def)
    with ready [OF m(1)] have "sender_ready ts (Suc j + m)" .
    with m sk have "finished (ts ! j)" by (auto simp: sender_ready_iff)
    with a show False by (simp add: active_def)
  qed
  have "nfin ts ?k = length (filter ?P (take j ts)) + length (filter ?P (drop (Suc j) ts))"
    using id_take_nth_drop [OF j] a unfolding nfin_def
    by (metis (no_types, lifting) active_def filter.simps(2) filter_append length_append)
  also have "\<dots> = count_list (take j (map th_sender ts)) ?k"
    by (simp add: pre post take_map count_list_map)
  finally show ?thesis using j by (simp add: rank_def)
qed

lemma zip_upt_update:
  "i < length ts \<Longrightarrow> zip [0..<length ts] (ts[i := t]) = (zip [0..<length ts] ts)[i := (i, t)]"
  by (metis length_upt list_update_id minus_nat.diff_0 nth_upt plus_nat.add_0 zip_update)

definition fifo_log_inv ::
    "config \<Rightarrow> (phone \<rightharpoonup> string) \<Rightarrow> (phone \<times> string \<times> delivery) list \<Rightarrow> (sms \<times> delivery) list \<Rightarrow> server \<Rightarrow> bool" where
  "fifo_log_inv cfg ps0 reqs log0 s =
     (\<exists>new. provider_log (snd s) = log0 @ new
        \<and> mset new = mset (map (\<lambda>x. seq_log cfg ps0 reqs ! fst x)
                               (filter (has_sent \<circ> snd) (zip [0..<length (fst s)] (fst s)))))"

lemma check_step_not_sent: "th_pc th = At_check \<Longrightarrow> \<not> has_sent (fst (thread_step debug cfg th w))"
  by (auto simp: thread_step_def has_sent_def)

lemma fifo_log_step:
  assumes "fifo_step debug cfg s s'" "fifo_inv ps0 s" "map thread_req (fst s) = reqs"
    and "fifo_log_inv cfg ps0 reqs log0 s"
  shows "fifo_log_inv cfg ps0 reqs log0 s'"
  using assms(1)
proof (cases rule: fifo_step.cases)
  case (run i ts w t' w')
  let ?k = "th_sender (ts ! i)"
  let ?b = "base_val ps0 ts ?k"
  let ?z = "zip [0..<length ts] ts"
  let ?e = "\<lambda>x. seq_log cfg ps0 reqs ! fst x"
  have inv: "fifo_inv ps0 (ts, w)" using assms(2) run by simp
  have i: "i < length ts" "\<not> finished (ts ! i)" using run by simp_all
  have ready: "th_pc (ts ! i) = At_check \<longrightarrow> sender_ready ts i" using run by simp
  have st: "t' = fst (thread_step debug cfg (ts ! i) w)" "w' = snd (thread_step debug cfg (ts ! i) w)"
    using run by simp_all
  have rq: "map thread_req ts = reqs" using assms(3) run by simp
  note sl = thread_step_log [OF fifo_thread_inv_before [OF inv i ready] i(2), of debug cfg]
  have entry: "reply_entry cfg (\<lambda>_. ?b) (ts ! i) = seq_log cfg ps0 reqs ! i"
    if sending: "has_sent t'" "\<not> has_sent (ts ! i)"
  proof -
    have "th_pc (ts ! i) \<noteq> At_check" using sending st check_step_not_sent by metis
    with i have "active (ts ! i)" by (simp add: active_def)
    then have "nfin ts ?k = rank (map th_sender ts) i" by (rule active_rank [OF inv i(1)])
    moreover have "reqs ! i = thread_req (ts ! i)" "map fst reqs = map th_sender ts" "i < length reqs"
      using rq i(1) by (auto simp: thread_req_def comp_def)
    ultimately show ?thesis
      by (simp add: seq_log_nth reply_entry_def base_val_def thread_req_def)
  qed
  have zi: "?z ! i = (i, ts ! i)" using i(1) by simp
  have mu: "mset (map ?e (filter (has_sent \<circ> snd) (?z[i := (i, t')]))) +
              (if (has_sent \<circ> snd) (?z ! i) then {#?e (?z ! i)#} else {#}) =
            mset (map ?e (filter (has_sent \<circ> snd) ?z)) +
              (if (has_sent \<circ> snd) (i, t') then {#?e (i, t')#} else {#})"
    by (rule mset_filter_update) (simp add: i(1))
  have z': "zip [0..<length (ts[i := t'])] (ts[i := t']) = ?z[i := (i, t')]"
    using zip_upt_update [OF i(1)] by simp
  from assms(4) run obtain new where log: "provider_log w = log0 @ new"
    and mnew: "mset new = mset (map ?e (filter (has_sent \<circ> snd) ?z))"
    by (auto simp: fifo_log_inv_def)
  show ?thesis
  proof (cases "has_sent (ts ! i)")
    case True
    with sl st have "has_sent t'" "provider_log w' = provider_log w" by simp_all
    with mu zi z' log mnew True run show ?thesis by (auto simp: fifo_log_inv_def)
  next
    case False
    show ?thesis
    proof (cases "has_sent t'")
      case True
      with sl st False entry have "provider_log w' = provider_log w @ [seq_log cfg ps0 reqs ! i]" by simp
      with mu zi z' log mnew True False run show ?thesis
        by (auto simp: fifo_log_inv_def add_ac intro!: exI [of _ "new @ [seq_log cfg ps0 reqs ! i]"])
    next
      case f2: False
      with sl st False have "provider_log w' = provider_log w" by simp
      with mu zi z' log mnew f2 False run show ?thesis by (auto simp: fifo_log_inv_def)
    qed
  qed
qed

lemma fifo_log_reach:
  assumes "(fifo_step debug cfg)\<^sup>*\<^sup>* s s'" "fifo_inv ps0 s" "map thread_req (fst s) = reqs"
    and "fifo_log_inv cfg ps0 reqs log0 s"
  shows "fifo_log_inv cfg ps0 reqs log0 s'"
  using assms(1,4)
proof (induction rule: rtranclp_induct)
  case base
  then show ?case .
next
  case (step y z)
  have "fifo_inv ps0 y" using fifo_inv_reach [OF step.hyps(1) assms(2)] .
  moreover have "map thread_req (fst y) = reqs"
    using rtranclp_cstep_requests [OF rtranclp_fifo_cstep [OF step.hyps(1)]] assms(3) by simp
  ultimately show ?case using fifo_log_step [OF step.hyps(2)] step.IH step.prems by blast
qed

lemma fifo_log_init: "fifo_log_inv cfg ps reqs (provider_log w) (request_threads reqs, w)"
proof -
  have "\<not> has_sent th" if "th \<in> set (request_threads reqs)" for th
    using that request_threads_at_check [of reqs] by (auto simp: list_all_iff has_sent_def)
  then have "filter (has_sent \<circ> snd) (zip [0..<length (request_threads reqs)] (request_threads reqs)) = []"
    by (auto simp: filter_empty_conv dest: set_zip_rightD)
  then show ?thesis by (simp add: fifo_log_inv_def)
qed

lemma fifo_log_final:
  assumes "fifo_log_inv cfg ps0 reqs log0 (ts, w)" "all_finished ts" "length ts = length reqs"
  shows "mset (provider_log w) = mset log0 + mset (seq_log cfg ps0 reqs)"
proof -
  let ?z = "zip [0..<length ts] ts"
  have "has_sent (snd x)" if "x \<in> set ?z" for x
  proof -
    have "snd x \<in> set ts"
      using that set_zip_rightD [of "fst x" "snd x" "[0..<length ts]" ts] by simp
    with assms(2) show ?thesis by (auto simp: all_finished_def list_all_iff intro: finished_has_sent)
  qed
  then have "filter (has_sent \<circ> snd) ?z = ?z" by (simp add: filter_id_conv)
  moreover have "map (\<lambda>x. seq_log cfg ps0 reqs ! fst x) ?z = map (\<lambda>j. seq_log cfg ps0 reqs ! j) [0..<length ts]"
  proof -
    have "map (\<lambda>j. seq_log cfg ps0 reqs ! j) (map fst ?z) = map (\<lambda>j. seq_log cfg ps0 reqs ! j) [0..<length ts]"
      by simp
    then show ?thesis by (simp only: map_map comp_def)
  qed
  moreover have "map (\<lambda>j. seq_log cfg ps0 reqs ! j) [0..<length ts] = seq_log cfg ps0 reqs"
    using assms(3) map_nth [of "seq_log cfg ps0 reqs"] by simp
  ultimately show ?thesis using assms(1) by (auto simp: fifo_log_inv_def)
qed

lemma fifo_complete_log:
  assumes "(fifo_step debug cfg)\<^sup>*\<^sup>* (request_threads reqs, w) (ts, w')" "all_finished ts"
  shows "mset (provider_log w') = mset (provider_log w) + mset (seq_log cfg (patient_state w) reqs)"
proof -
  have "fifo_log_inv cfg (patient_state w) reqs (provider_log w) (ts, w')"
    using fifo_log_reach [OF assms(1) fifo_inv_init _ fifo_log_init] by simp
  moreover have "length ts = length reqs" using fifo_senders [OF assms(1)] by (metis length_map)
  ultimately show ?thesis using fifo_log_final assms(2) by blast
qed

lemma valid_store_final:
  "valid_store ps \<Longrightarrow> valid_store (ps(p := final_val (ps p)))"
  by (cases "ps p") (auto simp: final_val_def continue_tag_def intake_tags_def dest: valid_store_lookup)

lemma seq_log_no_apology:
  "valid_store ps \<Longrightarrow> sorry_msg \<notin> sms_body ` fst ` set (seq_log cfg ps reqs)"
proof (induction cfg ps reqs rule: seq_log.induct)
  case (1 cfg ps)
  then show ?case by simp
next
  case (2 cfg ps p b d rs)
  then have "sorry_msg \<notin> sms_body ` fst ` set (seq_log cfg (ps(p := final_val (ps p))) rs)"
    using valid_store_final by blast
  with planned_msg_not_sorry [OF "2.prems", of p b] show ?case by auto
qed

subsection \<open>A run of three requests, two of one sender\<close>

definition fifo_demo :: "(phone \<times> string \<times> delivery) list" where
  "fifo_demo = [(demo_sender, ''hi'', Delivered ''SM1''), (''+15550000002'', ''hello'', Failed ''x''),
                (demo_sender, ''Jane Doe'', Delivered ''SM3'')]"

definition fifo_demo_run :: server where
  "fifo_demo_run = run_fifo True demo_config [2, 0, 1, 2, 0, 1, 0, 1, 2, 0, 2, 2, 2, 2]
                     (request_threads fifo_demo, init_world)"

lemma fifo_demo_reach:
  "(fifo_step True demo_config)\<^sup>*\<^sup>* (request_threads fifo_demo, init_world) (fst fifo_demo_run, snd fifo_demo_run)"
  unfolding prod.collapse fifo_demo_run_def by (rule run_fifo_reaches)

lemma fifo_demo_finished: "all_finished (fst fifo_demo_run)"
  by (simp add: fifo_demo_run_def fifo_demo_def request_threads_def all_finished_def fifo_ready_def
      sender_ready_def schedule_simps continue_branches demo_sender_def upt_rec)

text \<open>
  C24. Serializability when each sender's requests keep their order: in every run of
  the threaded server in which a request starts only after the earlier requests of its
  sender have finished, however the requests of different senders interleave and however
  many requests of one sender are waiting, the run that answers all requests leaves the
  store exactly as the sequential server leaves it, and every request is answered 200.
  This generalises C17 (distinct senders) and is the guarantee a per-sender lock buys.
\<close>

theorem sender_order_serializable:
  assumes "(fifo_step debug cfg)\<^sup>*\<^sup>* (request_threads reqs, w) (ts, w')"
    and "all_finished ts"
  shows "patient_state w' = patient_state (snd (serve debug cfg (request_posts reqs) w))
       \<and> map th_pc ts = replicate (length reqs) (Finished 200)"
proof -
  have inv: "fifo_inv (patient_state w) (ts, w')"
    using fifo_inv_reach [OF assms(1) fifo_inv_init] .
  have snd_ts: "map th_sender ts = map fst reqs" using fifo_senders [OF assms(1)] .
  then have len: "length ts = length reqs" by (metis length_map)
  have "patient_state w' k = patient_state (snd (serve debug cfg (request_posts reqs) w)) k" for k
    using fifo_inv_final(1) [OF inv assms(2), of k] serve_store_count [of debug cfg reqs w k] snd_ts
    by simp
  with fifo_inv_final(2) [OF inv assms(2)] len show ?thesis by auto
qed

theorem sender_order_serializable_witness:
  "patient_state (snd fifo_demo_run) = patient_state (snd (serve True demo_config (request_posts fifo_demo) init_world))"
  using sender_order_serializable [OF fifo_demo_reach fifo_demo_finished] by simp

text \<open>
  C25. The replies of such a run: every run that keeps each sender's requests in order
  and answers them all sends exactly the SMS the sequential server sends, to the same
  numbers with the same texts and provider answers, up to their order; in particular a
  sender's second message is answered from the stage its first one left. This
  generalises C18.
\<close>

theorem sender_order_same_replies:
  assumes "(fifo_step debug cfg)\<^sup>*\<^sup>* (request_threads reqs, w) (ts, w')"
    and "all_finished ts"
  shows "mset (provider_log w') = mset (provider_log (snd (serve debug cfg (request_posts reqs) w)))"
  using fifo_complete_log [OF assms] serve_log [of debug cfg reqs w] by simp

theorem sender_order_same_replies_witness:
  "mset (provider_log (snd fifo_demo_run)) =
   mset (provider_log (snd (serve True demo_config (request_posts fifo_demo) init_world)))"
  using sender_order_same_replies [OF fifo_demo_reach fifo_demo_finished] .

text \<open>
  C26. No apology in order: from a store of valid tags, a run that keeps each sender's
  requests in order and answers them all sends no apology, however many messages of one
  sender it serves. This generalises C20; C16 shows the order is needed.
\<close>

theorem sender_order_no_apology:
  assumes "valid_store (patient_state w)"
    and "(fifo_step debug cfg)\<^sup>*\<^sup>* (request_threads reqs, w) (ts, w')"
    and "all_finished ts"
  shows "count (image_mset (sms_body \<circ> fst) (mset (provider_log w'))) sorry_msg =
         count (image_mset (sms_body \<circ> fst) (mset (provider_log w))) sorry_msg"
proof -
  have "count (image_mset (sms_body \<circ> fst) (mset (seq_log cfg (patient_state w) reqs))) sorry_msg = 0"
    using seq_log_no_apology [OF assms(1), of cfg reqs] by (simp add: count_eq_zero_iff image_image)
  then show ?thesis using fifo_complete_log [OF assms(2,3)] by simp
qed

theorem sender_order_no_apology_witness:
  "count (image_mset (sms_body \<circ> fst) (mset (provider_log (snd fifo_demo_run)))) sorry_msg = 0"
proof -
  have "valid_store (patient_state init_world)" by (simp add: init_world_def)
  from sender_order_no_apology [OF this fifo_demo_reach fifo_demo_finished] show ?thesis
    by (simp add: init_world_def)
qed

end
