(* ===== verification/Spec2Isabelle.thy ===== *)
theory Spec2Isabelle
  imports Sender_Order
begin

text \<open>
  \<^bold>\<open>A verification library for LiV, an SMS patient-intake webhook\<close>
  (src/main.py, a Flask application that talks to patients through Twilio).

  \<^bold>\<open>The program.\<close> At start-up (lines 9 to 23) the script loads \<open>.env\<close> into the
  environment, reads three Twilio settings and exits unless all are non-empty, then
  builds the Twilio client. A process-wide dictionary \<open>patient_state\<close> (line 26) maps a
  sender's phone number to the tag of the question it was last asked. Every inbound SMS
  is a POST to \<open>/sms\<close> (\<open>incoming_sms\<close>, lines 68 to 81): a number not in the
  dictionary is greeted and stored with \<open>waiting_for_name\<close>
  (\<open>handle_patient_intake_start\<close>); a known number is moved one step along
  name, OHIP number, appointment type and complaint, each answer stripped and echoed
  back, and removed after the complaint (\<open>handle_patient_intake_continue\<close>, lines 45
  to 66). Every reply goes through \<open>send_sms\<close> (lines 28 to 38), which calls Twilio and
  only prints the outcome. Run as a script (lines 83 to 87) the app serves in Flask's
  debug mode, whose reloader runs the module a second time in the child process that
  serves.

  \<^bold>\<open>The theories.\<close>
  \<^item> \<open>Prelude\<close>: the model's type names, the Python exceptions the program raises
    (\<open>KeyError\<close>, Flask's \<open>BadRequestKeyError\<close>, \<open>SystemExit\<close>), truthiness and
    \<open>all\<close>, and the dictionary operations \<open>d[k]\<close> and \<open>del d[k]\<close>, with the
    collections \<open>model_defs\<close> and \<open>store_simps\<close>.
  \<^item> \<open>PyStr\<close>: \<open>str.isspace\<close> and \<open>str.strip\<close> on strings of Latin-1 code
    points.
  \<^item> \<open>Config\<close>: \<open>load_dotenv\<close> (the process environment wins over the file),
    \<open>startup\<close>, which returns the printed lines with either the \<open>config\<close> record or
    \<open>SystemExit 0\<close> (C12), and \<open>make_client\<close>, the Twilio client of line 23 built
    from the account SID and auth token.
  \<^item> \<open>Sms\<close>: the record \<open>io_world\<close> of what the program does outside its memory
    (the requests to Twilio, each with the client that made it, with Twilio's answers,
    and the standard output) and \<open>send_sms\<close>, stated on any extension of that record.
    Twilio's answer to each request is an input (\<open>delivery\<close>): the provider is an
    oracle, not a model; \<open>delivery_report\<close> is the line printed for it.
  \<^item> \<open>Intake\<close>: the record \<open>app_world\<close> (the \<open>io_world\<close> with \<open>patient_state\<close>,
    a map from numbers to tag strings, as in the source), the tags and reply texts, the
    two handlers with exceptions as an optional result, the store invariant
    \<open>valid_store\<close>, and the specification's enumerated stages: \<open>abs_store\<close> reads
    tags as stages, \<open>spec_step\<close> is the linear walk of spec.md section 4.1 and
    \<open>spec_reply\<close> its reply table; \<open>start_refines\<close> and \<open>continue_refines\<close> prove
    the handlers implement one step of it (C11 on the echoed text).
  \<^item> \<open>Webhook\<close>: \<open>incoming_sms\<close>; Flask's routing (\<open>app_dispatch\<close>: the
    \<open>/sms\<close> route of line 68 and the default static route \<open>/static/<path:filename>\<close>
    that \<open>Flask(__name__)\<close> registers, \<open>static_route\<close> and \<open>static_status\<close>) and
    exception-to-status mapping (\<open>flask_error_status\<close>, with the debug flag);
    \<open>serve\<close> for a sequence of requests handled one at a time; the reachable worlds as
    an inductive set; and the webhook's properties (C1 to C10, C19).
  \<^item> \<open>Concurrency\<close>: Flask's threaded development server. A request is a
    \<open>thread\<close> whose program counter \<open>tpc\<close> stands at one of the shared accesses of
    the handler (membership test, read of the tag, the Twilio call, the write or
    \<open>del\<close>); \<open>continue_plan\<close> is the decision the continue handler takes after its
    read; \<open>thread_step\<close> performs one access; \<open>cstep\<close> is the inductive relation
    letting any unfinished thread move; \<open>run_schedule\<close> executes a chosen order of
    steps. The races C14 to C16.
  \<^item> \<open>Serializability\<close>: the invariant \<open>serial_inv\<close> of the threaded server
    relative to its starting store, kept by every \<open>cstep\<close> when the senders in flight
    are distinct, the invariant \<open>log_inv\<close> on the SMS sent, and the
    serializability theorems C17, C18 and C20.
  \<^item> \<open>Interleaving\<close>: what holds for every interleaving, whatever the senders: the
    typed server state \<open>server_typed\<close> (store and pending writes hold only the four
    tags, statuses are 200 or 500) preserved by \<open>cstep\<close>, and the invariant
    \<open>sent_inv\<close> on the SMS a run appends (C21, C22).
  \<^item> \<open>Sender_Order\<close>: the runs in which each request starts only after the earlier
    requests of its sender have finished (\<open>fifo_step\<close>, a restriction of \<open>cstep\<close>,
    what a per-sender FIFO lock would enforce; \<open>run_fifo\<close> executes a schedule under
    it), the invariant \<open>fifo_inv\<close> (at most one active request per sender, related by
    \<open>thread_inv\<close> to the value left by its sender's finished requests), the sequential
    server's replies \<open>seq_log\<close> and the invariant \<open>fifo_log_inv\<close> (C24 to C26).
  \<^item> this theory: the script as a whole (\<open>run_module\<close>, the module top level:
    start-up and the banner of line 86; \<open>flask_banner\<close>, the two lines
    \<open>app.run\<close> prints in the process started from the shell; \<open>main_program\<close>: the
    module in the parent, Flask's lines, the module again in the reloader's child with
    the parent's environment, then serving in debug mode) and the properties that span
    the components (C13, C23, C27).

  \<^bold>\<open>What is proved.\<close> The first message of an unknown number greets it (C1); on a
  store of valid tags each inbound message is one step of the specification's walk
  with the specification's reply (refinement, C2); every reachable store holds only the
  four tags (C3), so the apology branch is dead and every inbound message is answered
  200 (C4); the only exceptions the webhook raises are for missing form fields, and the
  \<open>del\<close> of the last step never fails (C5); a sender's stage after \<open>n\<close> messages is
  \<open>n mod 5\<close> steps along the walk (C6); senders never affect each other (C7);
  Twilio's answers never change a status or the store (C8); exactly one SMS per inbound
  message (C9); other requests change nothing and get Flask's status, on \<open>/sms\<close>, on
  the static route and elsewhere (C10); each reply quotes the stripped text exactly
  (C11); start-up succeeds exactly when the three settings are non-empty (C12) and
  otherwise the script exits with status 0 before serving (C13). For the threaded
  server, on any world and for any bodies: two messages of one sender at a data step
  can interleave so that both get the reply each would get alone while the store
  advances one step only (C14); at the complaint step, so that the second \<open>del\<close>
  raises \<open>KeyError\<close> and a 500 (C15), or so that the apology C4 rules out is sent
  (C16). When the requests in flight have distinct senders, which is the per-sender
  discipline spec.md section 5 asks for, every complete interleaving leaves the store
  as the sequential server does and answers every request 200 (C17), and sends the same
  SMS, up to their order (C18); from a store of valid tags such a run sends no apology
  (C20). A failed Twilio call is only printed: every inbound message is still answered
  200 and prints exactly the SID or the error text (C19), so the standard output of a
  whole run of the script is the banner, Flask's two lines, the banner again (the
  reloader's child) and one such line per inbound message, in order (C23). Under every
  interleaving, racing senders included, the store and the pending writes hold only the
  four tags and every status is 200 or 500 (type preservation, C21), and a complete run
  sends exactly one SMS per request, to its sender (C22): the races of C14 to C16 lose
  or corrupt steps of the intake, never a reply. Generalising the distinct-sender
  results, every complete run in which a sender's requests keep their order, with any
  number of requests per sender waiting, leaves the store as the sequential server does
  and answers every request 200 (C24), sends the same SMS up to order, each message
  answered from the stage its predecessor left (C25), and from a valid store sends no
  apology (C26). Every request the script makes to Twilio goes through the client built
  from the SID and token of the environment, from the configured number (C27).

  \<^bold>\<open>Modelling choices.\<close> Python strings are lists of \<open>char\<close> read as Latin-1
  code points; the whitespace set of \<open>py_isspace\<close> is Python's on that range. Flask's
  form is Werkzeug's multi-dict, a list of (field, value) pairs in body order read with
  \<open>map_of\<close>, which returns the first value of a field as \<open>MultiDict.__getitem__\<close>
  does. \<open>serve\<close> handles each request to completion before the next;
  \<open>Concurrency\<close> lifts that restriction. The granularity of a thread step is one
  access to \<open>patient_state\<close> or one Twilio call, each atomic under the interpreter
  lock; pure computation (strip, string formatting) is folded into the step that
  follows it. No loop of the program is unbounded, so no fuel is needed: \<open>serve\<close>,
  \<open>run_schedule\<close> and \<open>run_fifo\<close> are structural recursion on their lists. The
  console of the model is the process's standard output, where \<open>print\<close> and
  Flask's banner write.

  \<^bold>\<open>Not modelled.\<close> Twilio's REST service and network (its answer is an input;
  the client object is modelled only by its credentials); HTTP parsing and Werkzeug's
  server; Werkzeug's redirect of request paths with repeated slashes to their merged
  form (C10 excludes such paths); the Werkzeug debugger page (only its status);
  reading \<open>.env\<close> from disk (the file is a map); what Werkzeug logs to standard
  error (the reloader's notice, the address, the debugger PIN, the request log); and
  the reloader's watching of the source files and its restarts when they change (only
  its first start of the child is modelled). The uncovered lines of src/main.py are
  comments and imports.

  \<^bold>\<open>Status.\<close> Every function of src/main.py and every statement of its module
  top level is modelled; what remains outside the model is the library and service code
  listed above, which is not part of the repository. The sequential server's reachable
  worlds (\<open>reachable\<close>) and the threaded runs are related through the stores and the
  SMS logs (C17, C18, C24, C25), not as sets of whole worlds: the threaded server's log
  holds the same SMS in another order.
\<close>

section \<open>The script\<close>

definition server_banner :: string where
  "server_banner = ''Server is running on port 5000''"

text \<open>
  The top level of the module (lines 9 to 23, and the banner of lines 85 and 86): load
  \<open>.env\<close> into the environment, start up, print the banner. The result is the
  exception with the lines printed, or the configuration, the process environment after
  \<open>load_dotenv\<close>, and the lines printed.
\<close>

definition run_module :: "env \<Rightarrow> env \<Rightarrow> (py_exc \<times> string list) + (config \<times> env \<times> string list)" where
  "run_module dotenv_file os_environ =
     (let environ = load_dotenv dotenv_file os_environ in
      case startup environ of
        (out, Inl e) \<Rightarrow> Inl (e, out)
      | (out, Inr cfg) \<Rightarrow> Inr (cfg, environ, out @ [server_banner]))"

text \<open>
  What \<open>app.run(debug=True)\<close> (line 87) prints on standard output before it serves:
  Flask's \<open>show_server_banner\<close> echoes the application's name (the module's file
  name, \<open>main\<close>, since the module runs as \<open>__main__\<close>) and the debug mode. It prints
  them only in the process started from the shell: in the reloader's child, whose
  environment holds \<open>WERKZEUG_RUN_MAIN\<close>, it returns at once. Werkzeug's own lines
  (the reloader notice, the address, the debugger PIN, the request log) go through
  Python's logging to standard error and are not part of this console.
\<close>

definition flask_banner :: "string list" where
  "flask_banner = ['' * Serving Flask app '' @ [CHR 0x27] @ ''main'' @ [CHR 0x27], '' * Debug mode: on'']"

text \<open>
  Running src/main.py as a script. \<open>app.run(debug=True)\<close> turns on Werkzeug's
  reloader: the process that ran the module only watches the source files, and runs the
  script again as a child process whose environment is its own \<open>os.environ\<close>, which
  now holds what \<open>load_dotenv\<close> added; the child runs the module top level again,
  reaches \<open>app.run\<close> and serves the requests in debug mode. Both processes print to
  the same standard output: the parent its banner and Flask's lines, then the child its
  banner and, while serving, the delivery reports. The result is the exception with the printed lines, or the statuses
  with the final world.
\<close>

definition main_program :: "env \<Rightarrow> env \<Rightarrow> (request \<times> delivery) list \<Rightarrow>
    (py_exc \<times> string list) + (nat list \<times> app_world)" where
  "main_program dotenv_file os_environ requests =
     (case run_module dotenv_file os_environ of
        Inl r \<Rightarrow> Inl r
      | Inr (_, environ, out) \<Rightarrow>
          (case run_module dotenv_file environ of
             Inl (e, out') \<Rightarrow> Inl (e, out @ flask_banner @ out')
           | Inr (cfg, _, out') \<Rightarrow>
               Inr (serve True cfg requests (init_world\<lparr>console := out @ flask_banner @ out'\<rparr>))))"

definition demo_environ :: env where
  "demo_environ = [''TWILIO_ACCOUNT_SID'' \<mapsto> ''AC0123'', ''TWILIO_AUTH_TOKEN'' \<mapsto> ''token'',
                   ''TWILIO_PHONE_NUMBER'' \<mapsto> ''+15550000000'']"

lemma load_dotenv_idem: "load_dotenv d (load_dotenv d e) = load_dotenv d e"
  by (rule ext) (simp add: load_dotenv_def map_add_def split: option.splits)

text \<open>The reloader's child reads the configuration its parent read.\<close>

lemma run_module_child:
  "run_module d e = Inr (cfg, environ, out) \<Longrightarrow> run_module d environ = Inr (cfg, environ, out)"
  by (auto simp: run_module_def Let_def load_dotenv_idem split: prod.splits sum.splits)

lemma main_program_serves:
  assumes "run_module d e = Inr (cfg, environ, out)"
  shows "main_program d e reqs = Inr (serve True cfg reqs (init_world\<lparr>console := out @ flask_banner @ out\<rparr>))"
  using assms run_module_child [OF assms] by (simp add: main_program_def)

lemma run_module_startup:
  "startup (load_dotenv d e) = (out, Inr cfg) \<Longrightarrow>
   run_module d e = Inr (cfg, load_dotenv d e, out @ [server_banner])"
  by (simp add: run_module_def)

section \<open>Properties that span the components\<close>

text \<open>
  C13. With a Twilio setting missing or empty after \<open>.env\<close> is loaded, the script
  prints its notice and exits through \<open>SystemExit 0\<close>, a successful exit status,
  before serving any request: no SMS is sent and no number is stored.
\<close>

theorem missing_config_exits_zero:
  assumes "\<not> py_all [load_dotenv d e ''TWILIO_ACCOUNT_SID'', load_dotenv d e ''TWILIO_AUTH_TOKEN'',
                     load_dotenv d e ''TWILIO_PHONE_NUMBER'']"
  shows "main_program d e reqs = Inl (SystemExit 0, [config_missing_msg])"
  using startup_failure [OF assms] by (simp add: main_program_def run_module_def)

theorem missing_config_exits_zero_witness:
  "main_program [''TWILIO_ACCOUNT_SID'' \<mapsto> ''AC0123''] [''TWILIO_AUTH_TOKEN'' \<mapsto> ''token'',
     ''TWILIO_PHONE_NUMBER'' \<mapsto> []] [] = Inl (SystemExit 0, [config_missing_msg])"
  by (rule missing_config_exits_zero) (simp add: load_dotenv_def map_add_def)

text \<open>
  C23. The console of a run of the script: with the three settings present, the script
  serves, and what it has printed on standard output at the end is the start-up banner,
  Flask's two lines naming the application and the debug mode (printed by
  \<open>app.run\<close> in the process that starts the reloader), the start-up banner again (the
  child that serves runs the module top level again), then one line per inbound message, in the order they arrived, reporting
  the SID or the error of the reply's delivery; other requests print nothing.
\<close>

theorem script_console:
  assumes "py_all [load_dotenv d e ''TWILIO_ACCOUNT_SID'', load_dotenv d e ''TWILIO_AUTH_TOKEN'',
                   load_dotenv d e ''TWILIO_PHONE_NUMBER'']"
  shows "case main_program d e reqs of
           Inl _ \<Rightarrow> False
         | Inr (_, w') \<Rightarrow> console w' = server_banner # flask_banner @ server_banner #
                           map (delivery_report \<circ> snd) (filter (is_inbound \<circ> fst) reqs)"
proof -
  have "\<exists>c. startup (load_dotenv d e) = ([], Inr c)"
    using assms by (simp add: startup_def Let_def)
  then obtain c where "startup (load_dotenv d e) = ([], Inr c)" ..
  from main_program_serves [OF run_module_startup [OF this], of reqs] show ?thesis
    by (simp add: serve_console split_beta)
qed

theorem script_console_witness:
  "case main_program Map.empty demo_environ
          [(sms_post demo_sender ''hi'', Delivered ''SM1''),
           (\<lparr>req_method = ''GET'', req_path = ''/sms'', req_form = []\<rparr>, Delivered ''SM9''),
           (sms_post demo_sender ''Jane Doe'', Failed ''HTTP 503'')] of
     Inl _ \<Rightarrow> False
   | Inr (_, w') \<Rightarrow> console w' = server_banner # flask_banner @ [server_banner,
                                      ''SMS sent with SID: SM1'', ''Error sending SMS: HTTP 503'']"
proof -
  let ?reqs = "[(sms_post demo_sender ''hi'', Delivered ''SM1''),
                (\<lparr>req_method = ''GET'', req_path = ''/sms'', req_form = []\<rparr>, Delivered ''SM9''),
                (sms_post demo_sender ''Jane Doe'', Failed ''HTTP 503'')]"
  have c: "case main_program Map.empty demo_environ ?reqs of
          Inl _ \<Rightarrow> False
        | Inr (_, w') \<Rightarrow> console w' = server_banner # flask_banner @ server_banner #
                          map (delivery_report \<circ> snd) (filter (is_inbound \<circ> fst) ?reqs)"
    by (rule script_console) (simp add: load_dotenv_def demo_environ_def)
  have e: "map (delivery_report \<circ> snd) (filter (is_inbound \<circ> fst) ?reqs) =
                   [''SMS sent with SID: SM1'', ''Error sending SMS: HTTP 503'']"
    by (simp add: is_inbound_def sms_post_def delivery_report_def)
  from c show ?thesis unfolding e .
qed

text \<open>
  C27. The credentials of every SMS: with the three settings present, every request
  the script makes to Twilio goes through the client built from the account SID and the
  auth token read from the environment after \<open>.env\<close> is loaded (line 23, in the child
  process that serves as in its parent), and is sent from the configured number.
\<close>

theorem script_client_credentials:
  assumes "py_all [load_dotenv d e ''TWILIO_ACCOUNT_SID'', load_dotenv d e ''TWILIO_AUTH_TOKEN'',
                   load_dotenv d e ''TWILIO_PHONE_NUMBER'']"
  shows "case main_program d e reqs of
           Inl _ \<Rightarrow> False
         | Inr (_, w') \<Rightarrow> \<forall>x \<in> set (provider_log w').
             sms_client (fst x) = \<lparr>client_account_sid = the (load_dotenv d e ''TWILIO_ACCOUNT_SID''),
                                   client_auth_token = the (load_dotenv d e ''TWILIO_AUTH_TOKEN'')\<rparr>
             \<and> sms_from (fst x) = the (load_dotenv d e ''TWILIO_PHONE_NUMBER'')"
proof -
  let ?c = "\<lparr>account_sid = the (load_dotenv d e ''TWILIO_ACCOUNT_SID''),
             auth_token = the (load_dotenv d e ''TWILIO_AUTH_TOKEN''),
             twilio_phone_number = the (load_dotenv d e ''TWILIO_PHONE_NUMBER'')\<rparr>"
  have "startup (load_dotenv d e) = ([], Inr ?c)"
    using assms by (simp add: startup_def Let_def)
  note m = main_program_serves [OF run_module_startup [OF this], of reqs]
  have "sent_with ?c (provider_log (snd (serve True ?c reqs (init_world\<lparr>console := [server_banner] @ flask_banner @ [server_banner]\<rparr>))))"
    by (rule serve_sent_with) (simp add: sent_with_def init_world_def)
  with m show ?thesis by (simp add: sent_with_def list_all_iff make_client_def split_beta)
qed

theorem script_client_credentials_witness:
  "case main_program Map.empty demo_environ [(sms_post demo_sender ''hi'', Delivered ''SM1'')] of
     Inl _ \<Rightarrow> False
   | Inr (_, w') \<Rightarrow> \<forall>x \<in> set (provider_log w').
       sms_client (fst x) = \<lparr>client_account_sid = ''AC0123'', client_auth_token = ''token''\<rparr>
       \<and> sms_from (fst x) = ''+15550000000''"
proof -
  have c: "case main_program Map.empty demo_environ [(sms_post demo_sender ''hi'', Delivered ''SM1'')] of
             Inl _ \<Rightarrow> False
           | Inr (_, w') \<Rightarrow> \<forall>x \<in> set (provider_log w').
               sms_client (fst x) = \<lparr>client_account_sid = the (load_dotenv Map.empty demo_environ ''TWILIO_ACCOUNT_SID''),
                                     client_auth_token = the (load_dotenv Map.empty demo_environ ''TWILIO_AUTH_TOKEN'')\<rparr>
               \<and> sms_from (fst x) = the (load_dotenv Map.empty demo_environ ''TWILIO_PHONE_NUMBER'')"
    by (rule script_client_credentials) (simp add: load_dotenv_def demo_environ_def)
  have e: "the (load_dotenv Map.empty demo_environ ''TWILIO_ACCOUNT_SID'') = ''AC0123''"
    "the (load_dotenv Map.empty demo_environ ''TWILIO_AUTH_TOKEN'') = ''token''"
    "the (load_dotenv Map.empty demo_environ ''TWILIO_PHONE_NUMBER'') = ''+15550000000''"
    by (simp_all add: load_dotenv_def demo_environ_def)
  from c show ?thesis unfolding e .
qed

end
